theory Spec2Isabelle
  imports Complex_Main
begin

section \<open>Python values: strings, integers, floats\<close>

text \<open>
  A Python \<^verbatim>\<open>str\<close> is a sequence of Unicode code points. The text the program
  handles (a spreadsheet cell, a work-order identifier, a long text) is arbitrary, and
  which code points \<^verbatim>\<open>str.strip()\<close> removes and how many \<^verbatim>\<open>len\<close> counts matters, so
  such a string is the list of its code points (\<open>pystr\<close>). The strings the program
  itself writes down (element ids, attribute names, messages) and the name of the
  operating system are ASCII; they are HOL strings, and \<open>ustr\<close> gives the code
  points of one.
\<close>

type_synonym pystr = "nat list"

definition ustr :: "string \<Rightarrow> pystr" where
  "ustr s = map of_char s"

definition LF :: nat where
  "LF = 0x0A"

definition CR :: nat where
  "CR = 0x0D"

text \<open>\<^verbatim>\<open>str.replace(old, new)\<close> for a pattern \<^verbatim>\<open>old\<close> of one character.\<close>

primrec replace :: "'a \<Rightarrow> 'a list \<Rightarrow> 'a list \<Rightarrow> 'a list" where
  "replace old new [] = []"
| "replace old new (c # cs) =
     (if c = old then new @ replace old new cs else c # replace old new cs)"

text \<open>
  \<^verbatim>\<open>str.strip()\<close> removes leading and trailing white space: the code points for
  which \<^verbatim>\<open>str.isspace\<close> holds, namely U+0009 to U+000D, U+001C to U+0020, U+0085,
  U+00A0, U+1680, U+2000 to U+200A, U+2028, U+2029, U+202F, U+205F and U+3000.
\<close>

definition isspace :: "nat \<Rightarrow> bool" where
  "isspace c =
     ((9 \<le> c \<and> c \<le> 13) \<or> (28 \<le> c \<and> c \<le> 32) \<or> c = 0x85 \<or> c = 0xA0 \<or> c = 0x1680
      \<or> (0x2000 \<le> c \<and> c \<le> 0x200A) \<or> c = 0x2028 \<or> c = 0x2029 \<or> c = 0x202F
      \<or> c = 0x205F \<or> c = 0x3000)"

definition strip :: "pystr \<Rightarrow> pystr" where
  "strip s = rev (dropWhile isspace (rev (dropWhile isspace s)))"

definition endswith :: "'a list \<Rightarrow> 'a list \<Rightarrow> bool" where
  "endswith s suffix =
     (length suffix \<le> length s \<and> drop (length s - length suffix) s = suffix)"

definition startswith :: "'a list \<Rightarrow> 'a list \<Rightarrow> bool" where
  "startswith s pre = (take (length pre) s = pre)"

definition lower_char :: "char \<Rightarrow> char" where
  "lower_char c =
     (case map_of (zip ''ABCDEFGHIJKLMNOPQRSTUVWXYZ'' ''abcdefghijklmnopqrstuvwxyz'') c of
        None \<Rightarrow> c
      | Some d \<Rightarrow> d)"

definition lower :: "string \<Rightarrow> string" where
  "lower s = map lower_char s"

text \<open>\<^verbatim>\<open>str(n)\<close> for an integer: its decimal digits, with a minus sign when negative.\<close>

definition digit_char :: "nat \<Rightarrow> char" where
  "digit_char d = ''0123456789'' ! d"

function str_nat :: "nat \<Rightarrow> string" where
  "str_nat n = (if n < 10 then [digit_char n] else str_nat (n div 10) @ [digit_char (n mod 10)])"
  by pat_completeness auto
termination
  by (relation "measure id") auto

declare str_nat.simps [simp del]

definition str_int :: "int \<Rightarrow> string" where
  "str_int i = (if i < 0 then CHR ''-'' # str_nat (nat (- i)) else str_nat (nat i))"

text \<open>
  A Python float is a finite value, an infinity or NaN. A finite float is modelled by
  its exact value, a rational number; the program never does arithmetic on a float,
  it only converts one to an integer.
\<close>

datatype pyfloat = Finite rat | PosInf | NegInf | NaN

text \<open>The exceptions the program raises or meets, as values.\<close>

datatype error =
    RuntimeError string
  | TimeoutError string
  | OverflowError
  | ValueError
  | ZeroDivisionError
  | com_error string
  | clipboard_error

text \<open>
  \<^verbatim>\<open>int(x)\<close> for a float: truncation toward zero; OverflowError on an infinity,
  ValueError on NaN.
\<close>

definition int_of_float :: "pyfloat \<Rightarrow> error + int" where
  "int_of_float x =
     (case x of
        Finite q \<Rightarrow> Inr (if 0 \<le> q then \<lfloor>q\<rfloor> else \<lceil>q\<rceil>)
      | PosInf \<Rightarrow> Inl OverflowError
      | NegInf \<Rightarrow> Inl OverflowError
      | NaN \<Rightarrow> Inl ValueError)"

section \<open>Work-order identifiers\<close>

text \<open>
  A spreadsheet cell as pandas hands it to \<^verbatim>\<open>Series.apply\<close>: a missing value
  (\<^verbatim>\<open>None\<close>, \<^verbatim>\<open>pd.NA\<close>, \<^verbatim>\<open>NaT\<close>), a bool, an int, a float, a string, or any other
  object, given by what \<^verbatim>\<open>str\<close> returns for it.
\<close>

datatype cell =
    PyNone
  | PyBool bool
  | PyInt int
  | PyFloat pyfloat
  | PyStr pystr
  | PyObject pystr

fun isna :: "cell \<Rightarrow> bool" where
  "isna PyNone = True"
| "isna (PyFloat NaN) = True"
| "isna _ = False"

text \<open>
  \<^verbatim>\<open>
  def _conv(x):
      if pd.isna(x):
          return ""
      try:
          if isinstance(x, (int,)):
              return str(x)
          if isinstance(x, float):
              return str(int(x))
          s = str(x).strip()
          if s.endswith(".0"):
              s = s[:-2]
          return s
      except Exception:
          return str(x)
  \<close>
  A bool is an instance of \<^verbatim>\<open>int\<close>. The only call that raises inside the \<^verbatim>\<open>try\<close> is
  \<^verbatim>\<open>int(x)\<close>; the handler then returns \<^verbatim>\<open>str(x)\<close>, which is \<^verbatim>\<open>inf\<close>, \<^verbatim>\<open>-inf\<close> or
  \<^verbatim>\<open>nan\<close> for the floats on which \<^verbatim>\<open>int\<close> raises.
\<close>

definition strip_dot_zero :: "pystr \<Rightarrow> pystr" where
  "strip_dot_zero x =
     (let s = strip x in if endswith s (ustr ''.0'') then take (length s - 2) s else s)"

definition conv :: "cell \<Rightarrow> pystr" where
  "conv x =
     (if isna x then []
      else case x of
        PyBool b \<Rightarrow> ustr (if b then ''True'' else ''False'')
      | PyInt n \<Rightarrow> ustr (str_int n)
      | PyFloat f \<Rightarrow>
          (case int_of_float f of
             Inr n \<Rightarrow> ustr (str_int n)
           | Inl e \<Rightarrow>
               ustr (case f of PosInf \<Rightarrow> ''inf'' | NegInf \<Rightarrow> ''-inf'' | _ \<Rightarrow> ''nan''))
      | PyStr s \<Rightarrow> strip_dot_zero s
      | PyObject s \<Rightarrow> strip_dot_zero s
      | PyNone \<Rightarrow> [])"

definition coerce_os_to_str :: "cell list \<Rightarrow> pystr list" where
  "coerce_os_to_str series = map conv series"

text \<open>
  \<^verbatim>\<open>
  work = df.copy()
  work["OS_str"] = coerce_os_to_str(work[map_col_os])
  work = work[work["OS_str"] != ""]
  \<close>
  The data frame is the list of its rows, \<open>map_col_os\<close> reads the chosen column of a
  row, and the new column is paired with the row.
\<close>

definition work :: "('r \<Rightarrow> cell) \<Rightarrow> 'r list \<Rightarrow> ('r \<times> pystr) list" where
  "work map_col_os df =
     filter (\<lambda>(r, OS_str). OS_str \<noteq> []) (zip df (coerce_os_to_str (map map_col_os df)))"

section \<open>The table widget and the row-visibility calculator\<close>

text \<open>
  The source's \<^verbatim>\<open>tbl\<close> is the GuiTableControl of the operations tab. The only part of
  it the program touches is \<^verbatim>\<open>tbl.VerticalScrollbar.Position\<close>, so the table is a
  record with that one field. Python integers are unbounded: \<open>int\<close>.
\<close>

record table =
  VerticalScrollbar_Position :: int

text \<open>
  \<^verbatim>\<open>
  def ensure_visible(tbl, abs_row: int, visible_rows: int):
      if abs_row < visible_rows:
          scroll_pos = 0
      else:
          scroll_pos = abs_row - (visible_rows - 1)
      tbl.VerticalScrollbar.Position = scroll_pos
      return abs_row - scroll_pos
  \<close>
  The assignment to the scrollbar is a mutation of \<^verbatim>\<open>tbl\<close>: the model returns the
  relative row together with the updated table.
\<close>

definition ensure_visible :: "table \<Rightarrow> int \<Rightarrow> int \<Rightarrow> int \<times> table" where
  "ensure_visible tbl abs_row visible_rows =
     (let scroll_pos = (if abs_row < visible_rows then 0
                        else abs_row - (visible_rows - 1))
      in (abs_row - scroll_pos, tbl\<lparr>VerticalScrollbar_Position := scroll_pos\<rparr>))"

section \<open>The outside world\<close>

text \<open>
  Everything the automation does to SAP GUI, to the clipboard and to its callbacks is
  recorded, in order, as an event. An event is recorded when the call succeeded.
  On an element of SAP GUI, looked up by its id, the program does one of three things:
  it reads an attribute (\<^verbatim>\<open>session.findById(id).press\<close>, the attribute is read and
  nothing is called), it assigns to an attribute (\<^verbatim>\<open>.text = s\<close>), or it calls a method
  (\<^verbatim>\<open>.sendVKey(0)\<close>). \<open>Scrolled p\<close> is the assignment
  \<^verbatim>\<open>tbl.VerticalScrollbar.Position = p\<close>, and \<open>BusyRead t\<close> is one read of
  \<^verbatim>\<open>session.Busy\<close>, at time \<open>t\<close>.
\<close>

datatype arg = StrArg pystr | IntArg int

datatype event =
    Connected int int
  | FoundById string
  | AttrRead string string
  | AttrSet string string arg
  | MethodCalled string string "arg list"
  | Scrolled int
  | BusyRead rat
  | ClipboardOpened
  | ClipboardEmptied
  | ClipboardTextSet pystr
  | ClipboardClosed
  | ProgressCalled rat
  | LogCalled pystr

text \<open>
  The state the program reads and changes: the wall clock (\<^verbatim>\<open>time.time()\<close>, in
  seconds), the events so far, the table widget, the text on the clipboard and whether
  this process holds the clipboard open.
\<close>

record world =
  clock :: rat
  trace :: "event list"
  tbl :: table
  clipboard :: "pystr option"
  clipboard_open :: bool

text \<open>
  What the program cannot decide: the operating system, whether a SAP session exists
  at the given indices, which element ids resolve, when the session is busy, how long
  a read of the busy flag takes (\<open>read_delay\<close>, at the time the read starts), by how
  much \<^verbatim>\<open>time.sleep\<close> sleeps longer than asked (\<open>oversleep\<close>, at the time the sleep
  starts), and whether each clipboard call succeeds. A read takes no less than no
  time and a sleep no less than asked: a negative \<open>read_delay\<close> or \<open>oversleep\<close>
  counts as 0.
\<close>

record env =
  platform_system :: string
  connect_ok :: "int \<Rightarrow> int \<Rightarrow> bool"
  find_ok :: "string \<Rightarrow> bool"
  Busy :: "rat \<Rightarrow> bool"
  read_delay :: "rat \<Rightarrow> rat"
  oversleep :: "rat \<Rightarrow> rat"
  OpenClipboard_ok :: bool
  EmptyClipboard_ok :: bool
  SetClipboardText_ok :: bool

text \<open>
  A call either returns a value or raises, and changes the world either way.
\<close>

type_synonym 'a action = "world \<Rightarrow> (error + 'a) \<times> world"

definition return :: "'a \<Rightarrow> 'a action" where
  "return x w = (Inr x, w)"

definition raise :: "error \<Rightarrow> 'a action" where
  "raise e w = (Inl e, w)"

definition and_then :: "'a action \<Rightarrow> ('a \<Rightarrow> 'b action) \<Rightarrow> 'b action" where
  "and_then m f w = (case m w of (Inl e, w') \<Rightarrow> (Inl e, w') | (Inr x, w') \<Rightarrow> f x w')"

definition seq :: "unit action \<Rightarrow> 'a action \<Rightarrow> 'a action" where
  "seq m n = and_then m (\<lambda>_. n)"

text \<open>Statements one after the other: the first that raises ends the run.\<close>

primrec steps :: "unit action list \<Rightarrow> unit action" where
  "steps [] = return ()"
| "steps (m # ms) = seq m (steps ms)"

text \<open>\<^verbatim>\<open>if b: m\<close>\<close>

definition if_do :: "bool \<Rightarrow> unit action \<Rightarrow> unit action" where
  "if_do b m = (if b then m else return ())"

text \<open>\<^verbatim>\<open>try: body finally: fin\<close>\<close>

definition try_finally :: "'a action \<Rightarrow> unit action \<Rightarrow> 'a action" where
  "try_finally body fin w =
     (case body w of (r, w1) \<Rightarrow>
        (case fin w1 of (Inl e, w2) \<Rightarrow> (Inl e, w2) | (Inr u, w2) \<Rightarrow> (r, w2)))"

definition emit :: "event \<Rightarrow> unit action" where
  "emit ev w = (Inr (), w\<lparr>trace := trace w @ [ev]\<rparr>)"

text \<open>\<^verbatim>\<open>a / b\<close> on integers: a float, or ZeroDivisionError.\<close>

definition truediv :: "int \<Rightarrow> int \<Rightarrow> rat action" where
  "truediv a b = (if b = 0 then raise ZeroDivisionError else return (of_int a / of_int b))"

section \<open>SAP GUI Scripting\<close>

text \<open>The element ids of \<^verbatim>\<open>SAP_IDS\<close>, character for character.\<close>

definition OKCD_ID :: string where
  "OKCD_ID = ''wnd[0]/tbar[0]/okcd''"

definition OS_FIELD_ID :: string where
  "OS_FIELD_ID = ''wnd[0]/usr/ctxtCAUFVD-AUFNR''"

definition TAB_OPERACOES_ID :: string where
  "TAB_OPERACOES_ID =
     ''wnd[0]/usr/subSUB_ALL:SAPLCOIH:3001/ssubSUB_LEVEL:SAPLCOIH:110 7/tabsTS_1100/tabpVGUE''"

definition TBL_PATH :: string where
  "TBL_PATH =
     ''wnd[0]/usr/subSUB_ALL:SAPLCOIH:3001/ssubSUB_LEVEL:SAPLCOIH:110 7/''
     @ ''tabsTS_1100/tabpVGUE/ssubSUB_AUFTRAG:SAPLCOVG:3010/tblSAPLCOVGTCTRL_3010''"

text \<open>\<^verbatim>\<open>SAP_IDS["BTN_TEXTO_LONGO_FMT"].format(row=row)\<close>\<close>

definition BTN_TEXTO_LONGO_FMT :: "int \<Rightarrow> string" where
  "BTN_TEXTO_LONGO_FMT row =
     ''wnd[0]/usr/subSUB_ALL:SAPLCOIH:3001/ssubSUB_LEVEL:SAPLCOIH:110 7/''
     @ ''tabsTS_1100/tabpVGUE/ssubSUB_AUFTRAG:SAPLCOVG:3010/tblSAPLCOVGTCTRL_3010/btnLT ICON-LTOPR[8,''
     @ str_int row @ '']''"

definition LONGTEXT_SHELL_ID :: string where
  "LONGTEXT_SHELL_ID = ''wnd[0]/usr/cntlSCMSW_CONTAINER_2102/shellcont/shell''"

definition BTN_BACK_ID :: string where
  "BTN_BACK_ID = ''wnd[0]/tbar[0]/btn[3]''"

definition BTN_SAVE_ID :: string where
  "BTN_SAVE_ID = ''wnd[0]/tbar[0]/btn[11]''"

text \<open>
  \<^verbatim>\<open>session.findById(id)\<close> raises when the id does not resolve. What the program
  then does with the element is one of: \<open>read_attr\<close>, the attribute is read
  (\<^verbatim>\<open>session.findById(id).press\<close>: the source names \<^verbatim>\<open>maximize\<close>, \<^verbatim>\<open>select\<close>,
  \<^verbatim>\<open>press\<close> and \<^verbatim>\<open>setDocum\<close> without calling them); \<open>assign_attr\<close>, the attribute is
  assigned (\<^verbatim>\<open>.text = s\<close>, \<^verbatim>\<open>.caretPosition = n\<close>); \<open>call_method\<close>, the method is
  called (\<^verbatim>\<open>.sendVKey(0)\<close>).
\<close>

definition findById :: "env \<Rightarrow> string \<Rightarrow> unit action" where
  "findById env ident =
     (if find_ok env ident then emit (FoundById ident) else raise (com_error ident))"

definition read_attr :: "env \<Rightarrow> string \<Rightarrow> string \<Rightarrow> unit action" where
  "read_attr env ident name = seq (findById env ident) (emit (AttrRead ident name))"

definition assign_attr :: "env \<Rightarrow> string \<Rightarrow> string \<Rightarrow> arg \<Rightarrow> unit action" where
  "assign_attr env ident name v = seq (findById env ident) (emit (AttrSet ident name v))"

definition call_method :: "env \<Rightarrow> string \<Rightarrow> string \<Rightarrow> arg list \<Rightarrow> unit action" where
  "call_method env ident name args =
     seq (findById env ident) (emit (MethodCalled ident name args))"

text \<open>
  \<^verbatim>\<open>
  def wait_not_busy(session, timeout=60):
      t0 = time.time()
      while session.Busy:
          if time.time() - t0 > timeout:
              raise TimeoutError("SAP ficou ocupado tempo demais (Busy).")
          time.sleep(0.1)
  \<close>
  \<open>wait_loop\<close> is the \<^verbatim>\<open>while\<close> loop, with \<open>t0\<close> fixed. Each turn reads the busy flag:
  the read starts at the current time, sees the flag of that time and takes
  \<open>read_delay\<close>. If the session is busy, \<^verbatim>\<open>time.time()\<close> is read and compared, and
  \<^verbatim>\<open>time.sleep(0.1)\<close> moves the clock by a tenth of a second and the \<open>oversleep\<close>.
\<close>

function wait_loop :: "env \<Rightarrow> rat \<Rightarrow> rat \<Rightarrow> unit action" where
  "wait_loop env t0 timeout w =
     (let w1 = w\<lparr>clock := clock w + max 0 (read_delay env (clock w)),
                 trace := trace w @ [BusyRead (clock w)]\<rparr> in
      if Busy env (clock w) then
        if clock w1 - t0 > timeout
        then (Inl (TimeoutError ''SAP ficou ocupado tempo demais (Busy).''), w1)
        else wait_loop env t0 timeout
               (w1\<lparr>clock := clock w1 + 1 / 10 + max 0 (oversleep env (clock w1))\<rparr>)
      else (Inr (), w1))"
  by pat_completeness auto
termination
proof (relation "measure (\<lambda>(env, t0, timeout, w). nat (\<lceil>(t0 + timeout - clock w) * 10\<rceil> + 1))")
  show "wf (measure (\<lambda>(env, t0, timeout, w). nat (\<lceil>(t0 + timeout - clock w) * 10\<rceil> + 1)))"
    by simp
next
  fix env :: env and t0 timeout :: rat and w x :: world
  assume x: "x = w\<lparr>clock := clock w + max 0 (read_delay env (clock w)),
                    trace := trace w @ [BusyRead (clock w)]\<rparr>"
    and "Busy env (clock w)" and le: "\<not> timeout < clock x - t0"
  let ?c = "clock x + 1 / 10 + max 0 (oversleep env (clock x))"
  from x have cx: "clock w \<le> clock x" by simp
  with le have "0 \<le> (t0 + timeout - clock w) * 10" by simp
  then have pos: "0 \<le> \<lceil>(t0 + timeout - clock w) * 10\<rceil>" by simp
  have "clock w + 1 / 10 \<le> ?c" using cx by simp
  then have "(t0 + timeout - ?c) * 10 \<le> (t0 + timeout - clock w) * 10 - 1"
    by (simp add: algebra_simps)
  then have "\<lceil>(t0 + timeout - ?c) * 10\<rceil> \<le> \<lceil>(t0 + timeout - clock w) * 10 - 1\<rceil>"
    by (rule ceiling_mono)
  also have "\<dots> = \<lceil>(t0 + timeout - clock w) * 10\<rceil> - 1"
    by (simp only: ceiling_diff_one)
  finally have "\<lceil>(t0 + timeout - ?c) * 10\<rceil> + 1 \<le> \<lceil>(t0 + timeout - clock w) * 10\<rceil>"
    by simp
  with pos show "((env, t0, timeout, x\<lparr>clock := ?c\<rparr>), env, t0, timeout, w)
      \<in> measure (\<lambda>(env, t0, timeout, w). nat (\<lceil>(t0 + timeout - clock w) * 10\<rceil> + 1))"
    by simp
qed

declare wait_loop.simps [simp del]

definition wait_not_busy :: "env \<Rightarrow> rat \<Rightarrow> unit action" where
  "wait_not_busy env timeout w = wait_loop env (clock w) timeout w"

text \<open>
  \<^verbatim>\<open>
  def connect_sap_session(connection_index: int = 0, session_index: int = 0):
      sap = win32com.client.GetObject("SAPGUI")
      app = sap.GetScriptingEngine
      conn = app.Children(connection_index)
      sess = conn.Children(session_index)
      return sess
  \<close>
  The lookup raises when SAP GUI is not registered or an index is out of range. The
  session it returns is the one the world stands for.
\<close>

definition connect_sap_session :: "env \<Rightarrow> int \<Rightarrow> int \<Rightarrow> unit action" where
  "connect_sap_session env connection_index session_index =
     (if connect_ok env connection_index session_index
      then emit (Connected connection_index session_index)
      else raise (com_error ''SAPGUI''))"

section \<open>The clipboard\<close>

definition OpenClipboard :: "env \<Rightarrow> unit action" where
  "OpenClipboard env w =
     (if OpenClipboard_ok env
      then (Inr (), w\<lparr>trace := trace w @ [ClipboardOpened], clipboard_open := True\<rparr>)
      else (Inl clipboard_error, w))"

definition EmptyClipboard :: "env \<Rightarrow> unit action" where
  "EmptyClipboard env w =
     (if EmptyClipboard_ok env
      then (Inr (), w\<lparr>trace := trace w @ [ClipboardEmptied], clipboard := None\<rparr>)
      else (Inl clipboard_error, w))"

definition SetClipboardText :: "env \<Rightarrow> pystr \<Rightarrow> unit action" where
  "SetClipboardText env texto w =
     (if SetClipboardText_ok env
      then (Inr (), w\<lparr>trace := trace w @ [ClipboardTextSet texto], clipboard := Some texto\<rparr>)
      else (Inl clipboard_error, w))"

definition CloseClipboard :: "unit action" where
  "CloseClipboard w = (Inr (), w\<lparr>trace := trace w @ [ClipboardClosed], clipboard_open := False\<rparr>)"

text \<open>
  \<^verbatim>\<open>
  def set_clipboard(texto: str):
      texto = (texto or "").replace("\n", "\r\n")
      win32clipboard.OpenClipboard()
      try:
          win32clipboard.EmptyClipboard()
          win32clipboard.SetClipboardText(texto)
      finally:
          win32clipboard.CloseClipboard()
  \<close>
  \<^verbatim>\<open>texto or ""\<close> is the empty string for \<^verbatim>\<open>None\<close> and \<^verbatim>\<open>texto\<close> for a string.
\<close>

definition set_clipboard :: "env \<Rightarrow> pystr option \<Rightarrow> unit action" where
  "set_clipboard env texto =
     (let texto = replace LF [CR, LF] (case texto of None \<Rightarrow> [] | Some s \<Rightarrow> s) in
      seq (OpenClipboard env)
        (try_finally (seq (EmptyClipboard env) (SetClipboardText env texto)) CloseClipboard))"

section \<open>The field-push sequencer\<close>

text \<open>
  \<^verbatim>\<open>
  def open_iw32_and_load_os(session, os_str: str):
      session.findById(SAP_IDS["OKCD_ID"]).text = "/nIW32"
      session.findById("wnd[0]").sendVKey(0)
      wait_not_busy(session)
      session.findById(SAP_IDS["OS_FIELD_ID"]).text = os_str
      session.findById(SAP_IDS["OS_FIELD_ID"]).caretPosition = len(os_str)
      session.findById("wnd[0]").sendVKey(0)
      wait_not_busy(session)
  \<close>
\<close>

definition open_iw32_and_load_os :: "env \<Rightarrow> pystr \<Rightarrow> unit action" where
  "open_iw32_and_load_os env os_str =
     steps [
       assign_attr env OKCD_ID ''text'' (StrArg (ustr ''/nIW32'')),
       call_method env ''wnd[0]'' ''sendVKey'' [IntArg 0],
       wait_not_busy env 60,
       assign_attr env OS_FIELD_ID ''text'' (StrArg os_str),
       assign_attr env OS_FIELD_ID ''caretPosition'' (IntArg (int (length os_str))),
       call_method env ''wnd[0]'' ''sendVKey'' [IntArg 0],
       wait_not_busy env 60]"

text \<open>
  The call \<^verbatim>\<open>ensure_visible(tbl, i, visible_rows)\<close> on the table of the world: the new
  scroll position reaches the widget and the relative row is returned.
\<close>

definition scroll_tbl :: "int \<Rightarrow> int \<Rightarrow> int action" where
  "scroll_tbl abs_row visible_rows w =
     (case ensure_visible (tbl w) abs_row visible_rows of
        (vis_row, tbl') \<Rightarrow>
          (Inr vis_row,
           w\<lparr>trace := trace w @ [Scrolled (VerticalScrollbar_Position tbl')], tbl := tbl'\<rparr>))"

text \<open>
  The body of the loop of \<^verbatim>\<open>push_to_sap\<close>, for row \<open>i\<close> with text \<open>texto\<close>:
  \<^verbatim>\<open>
          if progress_cb:
              progress_cb((i + 1) / max(total, 1))
          vis_row = ensure_visible(tbl, i, visible_rows)
          session.findById(SAP_IDS["BTN_TEXTO_LONGO_FMT"].format(row=vis_row)).press
          wait_not_busy(session)
          set_clipboard(texto)
          session.findById(SAP_IDS["LONGTEXT_SHELL_ID"]).setDocum
          wait_not_busy(session)
          session.findById(SAP_IDS["BTN_BACK_ID"]).press
          wait_not_busy(session)
          if log_cb:
              log_cb(f"Linha {i+1}/{total}: texto longo aplicado.")
  \<close>
  A callback is present or not (\<open>progress_cb\<close>, \<open>log_cb\<close>); calling it is an event.
  The source's \<^verbatim>\<open>total\<close> is \<open>total'\<close> here (\<open>total\<close> is a constant of HOL).
\<close>

definition push_row :: "env \<Rightarrow> int \<Rightarrow> bool \<Rightarrow> bool \<Rightarrow> int \<Rightarrow> int \<Rightarrow> pystr \<Rightarrow> unit action" where
  "push_row env visible_rows progress_cb log_cb total' i texto =
     seq (if_do progress_cb
            (and_then (truediv (i + 1) (max total' 1)) (\<lambda>v. emit (ProgressCalled v))))
       (and_then (scroll_tbl i visible_rows) (\<lambda>vis_row.
          steps [
            read_attr env (BTN_TEXTO_LONGO_FMT vis_row) ''press'',
            wait_not_busy env 60,
            set_clipboard env (Some texto),
            read_attr env LONGTEXT_SHELL_ID ''setDocum'',
            wait_not_busy env 60,
            read_attr env BTN_BACK_ID ''press'',
            wait_not_busy env 60,
            if_do log_cb
              (emit (LogCalled (ustr (''Linha '' @ str_int (i + 1) @ ''/'' @ str_int total'
                                      @ '': texto longo aplicado.''))))]))"

text \<open>\<^verbatim>\<open>for i, texto in enumerate(long_texts)\<close>, from index \<open>i\<close> on.\<close>

primrec push_rows ::
  "env \<Rightarrow> int \<Rightarrow> bool \<Rightarrow> bool \<Rightarrow> int \<Rightarrow> int \<Rightarrow> pystr list \<Rightarrow> unit action" where
  "push_rows env visible_rows progress_cb log_cb total' i [] = return ()"
| "push_rows env visible_rows progress_cb log_cb total' i (texto # rest) =
     seq (push_row env visible_rows progress_cb log_cb total' i texto)
         (push_rows env visible_rows progress_cb log_cb total' (i + 1) rest)"

text \<open>
  \<^verbatim>\<open>
  def push_to_sap(os_str, long_texts, visible_rows, save_after,
                  connection_index, session_index, progress_cb=None, log_cb=None):
      if not platform.system().lower().startswith("win"):
          raise RuntimeError("Este envio ao SAP requer Windows (SAP GUI + COM).")
      session = connect_sap_session(connection_index=connection_index, session_index=session_index)
      session.findById("wnd[0]").maximize
      if log_cb:
          log_cb(f"Abrindo IW32 e carregando OS {os_str}...")
      open_iw32_and_load_os(session, os_str)
      session.findById(SAP_IDS["TAB_OPERACOES_ID"]).select
      wait_not_busy(session)
      tbl = session.findById(SAP_IDS["TBL_PATH"])
      total = len(long_texts)
      for i, texto in enumerate(long_texts):
          ...
      if save_after:
          if log_cb:
              log_cb("Salvando a ordem...")
          session.findById(SAP_IDS["BTN_SAVE_ID"]).press
          wait_not_busy(session)
      if progress_cb:
          progress_cb(1.0)
      return True
  \<close>
\<close>

definition push_to_sap ::
  "env \<Rightarrow> pystr \<Rightarrow> pystr list \<Rightarrow> int \<Rightarrow> bool \<Rightarrow> int \<Rightarrow> int \<Rightarrow> bool \<Rightarrow> bool \<Rightarrow> bool action" where
  "push_to_sap env os_str long_texts visible_rows save_after connection_index session_index
       progress_cb log_cb =
     (if \<not> startswith (lower (platform_system env)) ''win''
      then raise (RuntimeError ''Este envio ao SAP requer Windows (SAP GUI + COM).'')
      else
        seq (steps [
               connect_sap_session env connection_index session_index,
               read_attr env ''wnd[0]'' ''maximize'',
               if_do log_cb
                 (emit (LogCalled (ustr ''Abrindo IW32 e carregando OS '' @ os_str
                                   @ ustr ''...''))),
               open_iw32_and_load_os env os_str,
               read_attr env TAB_OPERACOES_ID ''select'',
               wait_not_busy env 60,
               findById env TBL_PATH,
               push_rows env visible_rows progress_cb log_cb (int (length long_texts)) 0
                 long_texts,
               if_do save_after
                 (steps [
                    if_do log_cb (emit (LogCalled (ustr ''Salvando a ordem...''))),
                    read_attr env BTN_SAVE_ID ''press'',
                    wait_not_busy env 60]),
               if_do progress_cb (emit (ProgressCalled 1))])
          (return True))"

section \<open>Notions used to state the properties\<close>

text \<open>
  A text follows the CRLF convention when every carriage return is directly followed
  by a line feed and every line feed directly follows a carriage return.
\<close>

fun crlf_only :: "pystr \<Rightarrow> bool" where
  "crlf_only [] = True"
| "crlf_only (c # cs) =
     (if c = CR then (case cs of [] \<Rightarrow> False | d # ds \<Rightarrow> d = LF \<and> crlf_only ds)
      else c \<noteq> LF \<and> crlf_only cs)"

text \<open>
  A Windows machine on which SAP GUI answers at once, every element id resolves, a
  read takes no time, a sleep lasts as long as asked and the clipboard works; and a
  world at time 0 in which nothing has happened yet.
\<close>

definition env_ok :: env where
  "env_ok =
     \<lparr>platform_system = ''Windows'', connect_ok = (\<lambda>c s. True), find_ok = (\<lambda>i. True),
      Busy = (\<lambda>t. False), read_delay = (\<lambda>t. 0), oversleep = (\<lambda>t. 0),
      OpenClipboard_ok = True, EmptyClipboard_ok = True, SetClipboardText_ok = True\<rparr>"

definition w_init :: world where
  "w_init =
     \<lparr>clock = 0, trace = [], tbl = \<lparr>VerticalScrollbar_Position = 0\<rparr>, clipboard = None,
      clipboard_open = False\<rparr>"

text \<open>
  The times of the reads of the busy flag in \<open>wait_not_busy\<close>. A read that starts
  at time \<open>t\<close> ends at \<open>after_read env t\<close>, when \<^verbatim>\<open>time.time()\<close> is compared with the
  budget; if the loop goes on, the next read starts at \<open>next_read env t\<close>, after the
  sleep.
\<close>

definition after_read :: "env \<Rightarrow> rat \<Rightarrow> rat" where
  "after_read env t = t + max 0 (read_delay env t)"

definition next_read :: "env \<Rightarrow> rat \<Rightarrow> rat" where
  "next_read env t = after_read env t + 1 / 10 + max 0 (oversleep env (after_read env t))"

text \<open>
  The commands of a run: its events without the reads of the busy flag, whose number
  depends on how long SAP GUI stays busy.
\<close>

fun is_BusyRead :: "event \<Rightarrow> bool" where
  "is_BusyRead (BusyRead t) = True"
| "is_BusyRead e = False"

definition commands :: "event list \<Rightarrow> event list" where
  "commands es = filter (\<lambda>e. \<not> is_BusyRead e) es"

text \<open>The values the progress callback was called with, in order.\<close>

definition progress_values :: "event list \<Rightarrow> rat list" where
  "progress_values es = concat (map (\<lambda>e. case e of ProgressCalled v \<Rightarrow> [v] | _ \<Rightarrow> []) es)"

text \<open>The events on the table: a new scroll position, an element looked up.\<close>

fun is_scroll_or_lookup :: "event \<Rightarrow> bool" where
  "is_scroll_or_lookup (Scrolled p) = True"
| "is_scroll_or_lookup (FoundById i) = True"
| "is_scroll_or_lookup e = False"

fun is_progress_or_scroll :: "event \<Rightarrow> bool" where
  "is_progress_or_scroll (ProgressCalled v) = True"
| "is_progress_or_scroll (Scrolled p) = True"
| "is_progress_or_scroll e = False"

text \<open>The calls of a method of an element of SAP GUI.\<close>

fun is_MethodCalled :: "event \<Rightarrow> bool" where
  "is_MethodCalled (MethodCalled i name args) = True"
| "is_MethodCalled e = False"

text \<open>The progress calls among the elements looked up.\<close>

fun is_progress_or_lookup :: "event \<Rightarrow> bool" where
  "is_progress_or_lookup (ProgressCalled v) = True"
| "is_progress_or_lookup (FoundById i) = True"
| "is_progress_or_lookup e = False"

text \<open>
  The commands of one turn of the loop of \<open>push_to_sap\<close> that runs to its end, read off
  \<open>push_row\<close>.
\<close>

definition row_commands :: "int \<Rightarrow> bool \<Rightarrow> bool \<Rightarrow> int \<Rightarrow> int \<Rightarrow> pystr \<Rightarrow> event list" where
  "row_commands visible_rows progress_cb log_cb total' i texto =
     (if progress_cb then [ProgressCalled (of_int (i + 1) / of_int (max total' 1))] else [])
     @ [Scrolled (if i < visible_rows then 0 else i - (visible_rows - 1)),
        FoundById (BTN_TEXTO_LONGO_FMT
                     (i - (if i < visible_rows then 0 else i - (visible_rows - 1)))),
        AttrRead (BTN_TEXTO_LONGO_FMT
                    (i - (if i < visible_rows then 0 else i - (visible_rows - 1)))) ''press'',
        ClipboardOpened, ClipboardEmptied, ClipboardTextSet (replace LF [CR, LF] texto),
        ClipboardClosed,
        FoundById LONGTEXT_SHELL_ID, AttrRead LONGTEXT_SHELL_ID ''setDocum'',
        FoundById BTN_BACK_ID, AttrRead BTN_BACK_ID ''press'']
     @ (if log_cb
        then [LogCalled (ustr (''Linha '' @ str_int (i + 1) @ ''/'' @ str_int total'
                               @ '': texto longo aplicado.''))]
        else [])"

text \<open>
  \<open>yields m x es\<close>: whenever the call \<open>m\<close> returns, it returns \<open>x\<close> and has added the
  commands \<open>es\<close>. \<open>succeeds m\<close>: the call \<open>m\<close> returns from every world.
\<close>

definition yields :: "'a action \<Rightarrow> 'a \<Rightarrow> event list \<Rightarrow> bool" where
  "yields m x es =
     (\<forall>w y w'. m w = (Inr y, w') \<longrightarrow> y = x \<and> commands (trace w') = commands (trace w) @ es)"

definition succeeds :: "'a action \<Rightarrow> bool" where
  "succeeds m = (\<forall>w. \<exists>x w'. m w = (Inr x, w'))"

text \<open>
  The commands of a run of \<open>push_to_sap\<close> that returns, read off its definition: the
  connection, the navigation to the order, the lookups of the tab and of the table, the
  rows in order, what the optional save does and the last progress call.
\<close>

definition run_commands ::
  "pystr \<Rightarrow> pystr list \<Rightarrow> int \<Rightarrow> bool \<Rightarrow> int \<Rightarrow> int \<Rightarrow> bool \<Rightarrow> bool \<Rightarrow> event list" where
  "run_commands os_str long_texts visible_rows save_after connection_index session_index
       progress_cb log_cb =
     [Connected connection_index session_index,
      FoundById ''wnd[0]'', AttrRead ''wnd[0]'' ''maximize'']
     @ (if log_cb
        then [LogCalled (ustr ''Abrindo IW32 e carregando OS '' @ os_str @ ustr ''...'')]
        else [])
     @ [FoundById OKCD_ID, AttrSet OKCD_ID ''text'' (StrArg (ustr ''/nIW32'')),
        FoundById ''wnd[0]'', MethodCalled ''wnd[0]'' ''sendVKey'' [IntArg 0],
        FoundById OS_FIELD_ID, AttrSet OS_FIELD_ID ''text'' (StrArg os_str),
        FoundById OS_FIELD_ID,
        AttrSet OS_FIELD_ID ''caretPosition'' (IntArg (int (length os_str))),
        FoundById ''wnd[0]'', MethodCalled ''wnd[0]'' ''sendVKey'' [IntArg 0],
        FoundById TAB_OPERACOES_ID, AttrRead TAB_OPERACOES_ID ''select'',
        FoundById TBL_PATH]
     @ concat (map (\<lambda>(k, texto). row_commands visible_rows progress_cb log_cb
                                   (int (length long_texts)) (int k) texto)
                   (enumerate 0 long_texts))
     @ (if save_after
        then (if log_cb then [LogCalled (ustr ''Salvando a ordem...'')] else [])
             @ [FoundById BTN_SAVE_ID, AttrRead BTN_SAVE_ID ''press'']
        else [])
     @ (if progress_cb then [ProgressCalled 1] else [])"

text \<open>\<open>never_raises e m\<close>: the call \<open>m\<close> does not end with the exception \<open>e\<close>.\<close>

definition never_raises :: "error \<Rightarrow> 'a action \<Rightarrow> bool" where
  "never_raises e m = (\<forall>w. fst (m w) \<noteq> Inl e)"

text \<open>
  An environment in which a run cannot fail: Windows, a session at the given indices,
  every element id resolves, SAP GUI is never busy and the clipboard works.
\<close>

definition cooperative :: "env \<Rightarrow> int \<Rightarrow> int \<Rightarrow> bool" where
  "cooperative env connection_index session_index =
     (startswith (lower (platform_system env)) ''win''
      \<and> connect_ok env connection_index session_index
      \<and> (\<forall>ident. find_ok env ident)
      \<and> (\<forall>t. \<not> Busy env t)
      \<and> OpenClipboard_ok env \<and> EmptyClipboard_ok env \<and> SetClipboardText_ok env)"

section \<open>Properties of the row-visibility calculator\<close>

text \<open>
  Claim C1. For every absolute row \<open>\<ge> 0\<close> and every number of visible rows \<open>> 0\<close>,
  \<open>ensure_visible\<close> sets the scroll position to 0 when the row is below the number
  of visible rows and to \<open>abs_row - (visible_rows - 1)\<close> otherwise; the relative row
  it returns is \<open>abs_row - scroll position\<close>, lies in \<open>[0, visible_rows)\<close>, and the
  scroll position is not negative. With 15 visible rows, row 100 gives scroll
  position 86 and relative row 14.
\<close>

theorem ensure_visible_contract:
  assumes "0 \<le> abs_row" and "0 < visible_rows"
  shows "VerticalScrollbar_Position (snd (ensure_visible t abs_row visible_rows)) =
           (if abs_row < visible_rows then 0 else abs_row - (visible_rows - 1))
       \<and> fst (ensure_visible t abs_row visible_rows) =
           abs_row - VerticalScrollbar_Position (snd (ensure_visible t abs_row visible_rows))
       \<and> 0 \<le> fst (ensure_visible t abs_row visible_rows)
       \<and> fst (ensure_visible t abs_row visible_rows) < visible_rows
       \<and> 0 \<le> VerticalScrollbar_Position (snd (ensure_visible t abs_row visible_rows))
       \<and> ensure_visible t 100 15 = (14, t\<lparr>VerticalScrollbar_Position := 86\<rparr>)"
  using assms by (simp add: ensure_visible_def Let_def)

theorem ensure_visible_contract_witness:
  "(0::int) \<le> 100 \<and> (0::int) < 15
   \<and> VerticalScrollbar_Position
       (snd (ensure_visible \<lparr>VerticalScrollbar_Position = 0\<rparr> 100 15)) = 86
   \<and> fst (ensure_visible \<lparr>VerticalScrollbar_Position = 0\<rparr> 100 15) = 14"
  using ensure_visible_contract [of 100 15 "\<lparr>VerticalScrollbar_Position = 0\<rparr>"]
  by simp

text \<open>
  Claim C6. For a fixed number of visible rows \<open>> 0\<close>, the scroll position set by
  \<open>ensure_visible\<close> is monotone in the absolute row: a later row never gets a
  smaller scroll position than an earlier one, whatever the table was before.
\<close>

theorem ensure_visible_scroll_mono:
  assumes "0 < visible_rows" and "i \<le> j"
  shows "VerticalScrollbar_Position (snd (ensure_visible t i visible_rows))
       \<le> VerticalScrollbar_Position (snd (ensure_visible t' j visible_rows))"
  using assms by (simp add: ensure_visible_def Let_def)

theorem ensure_visible_scroll_mono_witness:
  "(0::int) < 15 \<and> (14::int) \<le> 15
   \<and> VerticalScrollbar_Position (snd (ensure_visible \<lparr>VerticalScrollbar_Position = 7\<rparr> 14 15))
     \<le> VerticalScrollbar_Position (snd (ensure_visible \<lparr>VerticalScrollbar_Position = 0\<rparr> 15 15))"
  using ensure_visible_scroll_mono
    [of 15 14 15 "\<lparr>VerticalScrollbar_Position = 7\<rparr>" "\<lparr>VerticalScrollbar_Position = 0\<rparr>"]
  by simp

section \<open>Properties of the identifier coercion\<close>

text \<open>Evaluating \<open>str_int\<close> on a numeral, digit by digit.\<close>

lemma str_nat_numeral:
  "str_nat (numeral k) =
     (if (numeral k :: nat) < 10 then [digit_char (numeral k)]
      else str_nat (numeral k div 10) @ [digit_char (numeral k mod 10)])"
  by (rule str_nat.simps)

lemma str_nat_0: "str_nat 0 = ''0''"
  by (simp add: str_nat.simps [of 0] digit_char_def)

lemma str_nat_Suc_0: "str_nat (Suc 0) = ''1''"
  by (simp add: str_nat.simps [of "Suc 0"] digit_char_def)

lemmas str_int_eval = str_int_def str_nat_numeral str_nat_0 str_nat_Suc_0 digit_char_def

lemma work_rows: "map fst (work map_col_os df) = filter (\<lambda>r. conv (map_col_os r) \<noteq> []) df"
  unfolding work_def coerce_os_to_str_def by (induction df) auto

lemma work_identifiers:
  "map snd (work map_col_os df) = filter (\<lambda>s. s \<noteq> []) (coerce_os_to_str (map map_col_os df))"
  unfolding work_def coerce_os_to_str_def by (induction df) auto

text \<open>
  Claim C3. \<open>coerce_os_to_str\<close> maps the float 6000794541.0 to the string
  \<^verbatim>\<open>6000794541\<close>, leaves the string \<^verbatim>\<open>6000794541\<close> as it is, and maps a missing cell
  (\<^verbatim>\<open>None\<close>, NaN), the empty string and a string of white space only (here a
  no-break space and an em space) to the empty string; a string with white space around
  it and \<^verbatim>\<open>.0\<close> at its end loses both. The workable set keeps exactly the rows whose
  coerced identifier is not empty, in their order.
\<close>

theorem coerce_os_to_str_identifiers:
  "coerce_os_to_str
     [PyFloat (Finite 6000794541), PyStr (ustr ''6000794541''), PyNone, PyFloat NaN, PyStr [],
      PyStr [0xA0, 0x2003], PyStr (ustr '' 6000794541.0 '')]
     = [ustr ''6000794541'', ustr ''6000794541'', [], [], [], [], ustr ''6000794541'']
   \<and> map fst (work map_col_os df) = filter (\<lambda>r. conv (map_col_os r) \<noteq> []) df
   \<and> map snd (work map_col_os df)
       = filter (\<lambda>s. s \<noteq> []) (coerce_os_to_str (map map_col_os df))"
proof -
  have "conv (PyFloat (Finite 6000794541)) = ustr ''6000794541''"
    by (simp add: conv_def int_of_float_def str_int_eval)
  moreover have "conv (PyStr (ustr ''6000794541'')) = ustr ''6000794541''"
    by (simp add: conv_def strip_dot_zero_def strip_def isspace_def endswith_def ustr_def)
  moreover have "conv PyNone = [] \<and> conv (PyFloat NaN) = [] \<and> conv (PyStr []) = []"
    by (simp add: conv_def strip_dot_zero_def strip_def endswith_def)
  moreover have "conv (PyStr [0xA0, 0x2003]) = []"
    by (simp add: conv_def strip_dot_zero_def strip_def isspace_def endswith_def)
  moreover have "conv (PyStr (ustr '' 6000794541.0 '')) = ustr ''6000794541''"
    by (simp add: conv_def strip_dot_zero_def strip_def isspace_def endswith_def ustr_def)
  ultimately show ?thesis
    by (simp add: coerce_os_to_str_def work_rows
        work_identifiers [unfolded coerce_os_to_str_def])
qed

lemma trunc_bounds:
  fixes q :: rat
  defines "n \<equiv> (if 0 \<le> q then \<lfloor>q\<rfloor> else \<lceil>q\<rceil>)"
  shows "\<bar>of_int n\<bar> \<le> \<bar>q\<bar>" and "\<bar>q - of_int n\<bar> < 1"
proof -
  have f: "of_int \<lfloor>q\<rfloor> \<le> q" "q < of_int \<lfloor>q\<rfloor> + 1" by linarith+
  have c: "q \<le> of_int \<lceil>q\<rceil>" "of_int \<lceil>q\<rceil> < q + 1" by linarith+
  show "\<bar>of_int n\<bar> \<le> \<bar>q\<bar>"
  proof (cases "0 \<le> q")
    case True
    then have "n = \<lfloor>q\<rfloor>" "(0::rat) \<le> of_int \<lfloor>q\<rfloor>" by (simp_all add: n_def)
    with f True show ?thesis by linarith
  next
    case False
    then have "n = \<lceil>q\<rceil>" "of_int \<lceil>q\<rceil> \<le> (0::rat)" by (simp_all add: n_def ceiling_le_zero)
    with c False show ?thesis by linarith
  qed
  show "\<bar>q - of_int n\<bar> < 1"
  proof (cases "0 \<le> q")
    case True
    then have "n = \<lfloor>q\<rfloor>" by (simp add: n_def)
    with f show ?thesis by linarith
  next
    case False
    then have "n = \<lceil>q\<rceil>" by (simp add: n_def)
    with c show ?thesis by linarith
  qed
qed

text \<open>
  Claim C10, as amended. For every finite float, \<open>conv\<close> returns the decimal string of
  the float truncated toward zero: the integer is no larger in absolute value than the
  float and differs from it by less than 1. A cell holding 6000794541.9 becomes
  \<^verbatim>\<open>6000794541\<close>. For an infinite float \<^verbatim>\<open>int\<close> raises inside the \<^verbatim>\<open>try\<close> and the
  handler returns \<^verbatim>\<open>inf\<close> or \<^verbatim>\<open>-inf\<close>.
\<close>

theorem conv_finite_float_truncates:
  "conv (PyFloat (Finite q)) = ustr (str_int (if 0 \<le> q then \<lfloor>q\<rfloor> else \<lceil>q\<rceil>))
   \<and> \<bar>of_int (if 0 \<le> q then \<lfloor>q\<rfloor> else \<lceil>q\<rceil>)\<bar> \<le> \<bar>q\<bar>
   \<and> \<bar>q - of_int (if 0 \<le> q then \<lfloor>q\<rfloor> else \<lceil>q\<rceil>)\<bar> < 1
   \<and> conv (PyFloat (Finite (60007945419 / 10))) = ustr ''6000794541''
   \<and> conv (PyFloat PosInf) = ustr ''inf''
   \<and> conv (PyFloat NegInf) = ustr ''-inf''"
proof -
  have "\<lfloor>60007945419 / 10 :: rat\<rfloor> = 6000794541"
    by (simp add: floor_eq_iff)
  then have "conv (PyFloat (Finite (60007945419 / 10))) = ustr ''6000794541''"
    by (simp add: conv_def int_of_float_def str_int_eval)
  moreover have "conv (PyFloat (Finite q)) = ustr (str_int (if 0 \<le> q then \<lfloor>q\<rfloor> else \<lceil>q\<rceil>))"
    by (simp add: conv_def int_of_float_def)
  moreover have "conv (PyFloat PosInf) = ustr ''inf''" "conv (PyFloat NegInf) = ustr ''-inf''"
    by (simp_all add: conv_def int_of_float_def)
  ultimately show ?thesis
    using trunc_bounds [of q] by simp
qed

text \<open>
  The claim as written, for every float that is not NaN, fails at positive infinity:
  it is not missing, \<^verbatim>\<open>int\<close> raises OverflowError on it, and the handler returns
  \<^verbatim>\<open>inf\<close>, which is no integer's decimal string.
\<close>

theorem conv_infinity_not_truncated:
  "PosInf \<noteq> NaN \<and> \<not> isna (PyFloat PosInf) \<and> int_of_float PosInf = Inl OverflowError
   \<and> conv (PyFloat PosInf) = ustr ''inf''"
  by (simp add: conv_def int_of_float_def)

section \<open>Properties of the clipboard bridge\<close>

lemma replace_LF_no_CR:
  "CR \<notin> set s \<Longrightarrow>
     crlf_only (replace LF [CR, LF] s) \<and> filter (\<lambda>c. c \<noteq> CR) (replace LF [CR, LF] s) = s"
  by (induction s) (auto simp: CR_def LF_def)

lemma set_clipboard_cases:
  "set_clipboard env texto w =
     (let t = replace LF [CR, LF] (case texto of None \<Rightarrow> [] | Some s \<Rightarrow> s) in
      if \<not> OpenClipboard_ok env then (Inl clipboard_error, w)
      else if \<not> EmptyClipboard_ok env then
        (Inl clipboard_error,
         w\<lparr>trace := trace w @ [ClipboardOpened, ClipboardClosed], clipboard_open := False\<rparr>)
      else if \<not> SetClipboardText_ok env then
        (Inl clipboard_error,
         w\<lparr>trace := trace w @ [ClipboardOpened, ClipboardEmptied, ClipboardClosed],
           clipboard := None, clipboard_open := False\<rparr>)
      else
        (Inr (),
         w\<lparr>trace := trace w @ [ClipboardOpened, ClipboardEmptied, ClipboardTextSet t,
                                ClipboardClosed],
           clipboard := Some t, clipboard_open := False\<rparr>))"
  by (simp add: set_clipboard_def Let_def seq_def and_then_def try_finally_def
      OpenClipboard_def EmptyClipboard_def SetClipboardText_def CloseClipboard_def)

text \<open>
  Claim C7. \<open>set_clipboard\<close> is to bring every line break of the text to the CRLF
  convention before it writes the text, inside an acquisition of the clipboard that
  is released on every path. The acquisition is as claimed (\<open>set_clipboard_cases\<close>),
  and a text whose line breaks are bare line feeds is written in the CRLF
  convention (\<open>replace_LF_no_CR\<close>). The normalisation fails on a text that already has
  a CRLF line break: \<^verbatim>\<open>replace("\n", "\r\n")\<close> gives its line feed a second carriage
  return, so \<^verbatim>\<open>a\r\nb\<close> reaches the clipboard as \<^verbatim>\<open>a\r\r\nb\<close>, which does not follow
  the CRLF convention although the input did.
\<close>

theorem set_clipboard_crlf_input:
  "set_clipboard env_ok (Some (ustr ''a'' @ [CR, LF] @ ustr ''b'')) w_init =
     (Inr (),
      w_init\<lparr>trace := [ClipboardOpened, ClipboardEmptied,
                        ClipboardTextSet (ustr ''a'' @ [CR, CR, LF] @ ustr ''b''),
                        ClipboardClosed],
             clipboard := Some (ustr ''a'' @ [CR, CR, LF] @ ustr ''b''),
             clipboard_open := False\<rparr>)
   \<and> crlf_only (ustr ''a'' @ [CR, LF] @ ustr ''b'')
   \<and> \<not> crlf_only (ustr ''a'' @ [CR, CR, LF] @ ustr ''b'')"
  by (simp add: set_clipboard_cases env_ok_def w_init_def CR_def LF_def Let_def ustr_def)

section \<open>Properties of the busy-wait synchronizer\<close>

text \<open>The reads of the busy flag made by the loop, and when they start.\<close>

lemma next_read_later: "t + 1 / 10 \<le> next_read env t"
  by (simp add: next_read_def after_read_def)

lemma after_read_later: "t \<le> after_read env t"
  by (simp add: after_read_def)

lemma reads_apart: "t + of_nat k / 10 \<le> (next_read env ^^ k) t"
proof (induction k)
  case 0
  show ?case by simp
next
  case (Suc k)
  have "t + of_nat (Suc k) / 10 = (t + of_nat k / 10) + 1 / 10"
    by (simp add: add_divide_distrib)
  also have "\<dots> \<le> (next_read env ^^ k) t + 1 / 10"
    using Suc by simp
  also have "\<dots> \<le> next_read env ((next_read env ^^ k) t)"
    by (rule next_read_later)
  finally show ?case by simp
qed

lemma reads_exact:
  assumes "\<forall>s. read_delay env s \<le> 0 \<and> oversleep env s \<le> 0"
  shows "(next_read env ^^ k) t = t + of_nat k / 10"
proof (induction k)
  case 0
  show ?case by simp
next
  case (Suc k)
  from assms have "max 0 (read_delay env s) = 0" and "max 0 (oversleep env s) = 0" for s
    by (simp_all add: max_absorb1)
  then have "next_read env s = s + 1 / 10" for s
    by (simp add: next_read_def after_read_def)
  with Suc show ?case
    by (simp add: add_divide_distrib)
qed

lemma polls_Suc:
  "map (\<lambda>k. BusyRead ((f ^^ k) c)) [0..<Suc (Suc n)]
   = BusyRead c # map (\<lambda>k. BusyRead ((f ^^ k) (f c))) [0..<Suc n]"
proof -
  have "[0..<Suc (Suc n)] = 0 # map Suc [0..<Suc n]"
    by (simp only: map_Suc_upt upt_conv_Cons [of 0 "Suc (Suc n)"] zero_less_Suc)
  then show ?thesis
    by (simp add: comp_def funpow_swap1 del: upt_Suc)
qed

lemma wait_loop_run:
  "\<exists>n. snd (wait_loop env t0 timeout w) =
          w\<lparr>clock := after_read env ((next_read env ^^ n) (clock w)),
            trace := trace w @ map (\<lambda>k. BusyRead ((next_read env ^^ k) (clock w))) [0..<Suc n]\<rparr>
       \<and> (\<forall>k<n. Busy env ((next_read env ^^ k) (clock w))
                 \<and> after_read env ((next_read env ^^ k) (clock w)) - t0 \<le> timeout)
       \<and> fst (wait_loop env t0 timeout w) =
           (if Busy env ((next_read env ^^ n) (clock w))
            then Inl (TimeoutError ''SAP ficou ocupado tempo demais (Busy).'') else Inr ())
       \<and> (Busy env ((next_read env ^^ n) (clock w)) \<longrightarrow>
            timeout < after_read env ((next_read env ^^ n) (clock w)) - t0)"
proof (induction env t0 timeout w rule: wait_loop.induct)
  case (1 env t0 timeout w)
  let ?w1 = "w\<lparr>clock := clock w + max 0 (read_delay env (clock w)),
               trace := trace w @ [BusyRead (clock w)]\<rparr>"
  let ?w2 = "?w1\<lparr>clock := clock ?w1 + 1 / 10 + max 0 (oversleep env (clock ?w1))\<rparr>"
  have c1: "clock ?w1 = after_read env (clock w)"
    by (simp add: after_read_def)
  have c2: "clock ?w2 = next_read env (clock w)"
    by (simp add: next_read_def after_read_def)
  show ?case
  proof (cases "Busy env (clock w) \<and> \<not> timeout < after_read env (clock w) - t0")
    case False
    then have "wait_loop env t0 timeout w =
        (if Busy env (clock w) then Inl (TimeoutError ''SAP ficou ocupado tempo demais (Busy).'')
         else Inr (), ?w1)"
      by (simp add: wait_loop.simps [of env t0 timeout w] Let_def after_read_def)
    with False show ?thesis
      by (intro exI [of _ 0]) (auto simp: after_read_def)
  next
    case True
    then have step: "wait_loop env t0 timeout w = wait_loop env t0 timeout ?w2"
      by (simp add: wait_loop.simps [of env t0 timeout w] Let_def after_read_def)
    from True have "\<exists>n. snd (wait_loop env t0 timeout ?w2) =
          ?w2\<lparr>clock := after_read env ((next_read env ^^ n) (clock ?w2)),
            trace := trace ?w2 @ map (\<lambda>k. BusyRead ((next_read env ^^ k) (clock ?w2))) [0..<Suc n]\<rparr>
       \<and> (\<forall>k<n. Busy env ((next_read env ^^ k) (clock ?w2))
                 \<and> after_read env ((next_read env ^^ k) (clock ?w2)) - t0 \<le> timeout)
       \<and> fst (wait_loop env t0 timeout ?w2) =
           (if Busy env ((next_read env ^^ n) (clock ?w2))
            then Inl (TimeoutError ''SAP ficou ocupado tempo demais (Busy).'') else Inr ())
       \<and> (Busy env ((next_read env ^^ n) (clock ?w2)) \<longrightarrow>
            timeout < after_read env ((next_read env ^^ n) (clock ?w2)) - t0)"
      by (intro "1.IH") (simp_all add: after_read_def)
    then obtain n where
      s: "snd (wait_loop env t0 timeout ?w2) =
          ?w2\<lparr>clock := after_read env ((next_read env ^^ n) (clock ?w2)),
            trace := trace ?w2 @ map (\<lambda>k. BusyRead ((next_read env ^^ k) (clock ?w2))) [0..<Suc n]\<rparr>"
      and b: "\<forall>k<n. Busy env ((next_read env ^^ k) (clock ?w2))
                 \<and> after_read env ((next_read env ^^ k) (clock ?w2)) - t0 \<le> timeout"
      and f: "fst (wait_loop env t0 timeout ?w2) =
           (if Busy env ((next_read env ^^ n) (clock ?w2))
            then Inl (TimeoutError ''SAP ficou ocupado tempo demais (Busy).'') else Inr ())"
      and t: "Busy env ((next_read env ^^ n) (clock ?w2)) \<longrightarrow>
            timeout < after_read env ((next_read env ^^ n) (clock ?w2)) - t0"
      by blast
    have c: "(next_read env ^^ k) (clock ?w2) = (next_read env ^^ Suc k) (clock w)" for k
      unfolding c2 by (simp add: funpow_swap1)
    have "snd (wait_loop env t0 timeout w) =
          w\<lparr>clock := after_read env ((next_read env ^^ Suc n) (clock w)),
            trace := trace w @ map (\<lambda>k. BusyRead ((next_read env ^^ k) (clock w))) [0..<Suc (Suc n)]\<rparr>"
      unfolding step s polls_Suc c by (simp add: funpow_swap1 del: upt_Suc)
    moreover have "\<forall>k<Suc n. Busy env ((next_read env ^^ k) (clock w))
                 \<and> after_read env ((next_read env ^^ k) (clock w)) - t0 \<le> timeout"
    proof (intro allI impI)
      fix k assume "k < Suc n"
      show "Busy env ((next_read env ^^ k) (clock w))
                 \<and> after_read env ((next_read env ^^ k) (clock w)) - t0 \<le> timeout"
      proof (cases k)
        case 0
        with True show ?thesis by simp
      next
        case (Suc j)
        with \<open>k < Suc n\<close> b have "Busy env ((next_read env ^^ j) (clock ?w2))
                 \<and> after_read env ((next_read env ^^ j) (clock ?w2)) - t0 \<le> timeout"
          by simp
        then show ?thesis unfolding Suc c .
      qed
    qed
    moreover have "fst (wait_loop env t0 timeout w) =
           (if Busy env ((next_read env ^^ Suc n) (clock w))
            then Inl (TimeoutError ''SAP ficou ocupado tempo demais (Busy).'') else Inr ())"
      unfolding step f c ..
    moreover have "Busy env ((next_read env ^^ Suc n) (clock w)) \<longrightarrow>
            timeout < after_read env ((next_read env ^^ Suc n) (clock w)) - t0"
      using t unfolding c .
    ultimately show ?thesis by blast
  qed
qed

text \<open>
  Claim C4. For a budget \<open>timeout \<ge> 0\<close>, \<open>wait_not_busy\<close> does nothing but read the
  busy flag, \<open>n + 1\<close> times, with one \<^verbatim>\<open>time.sleep(0.1)\<close> between two reads: each read
  starts at least 100 ms after the one before, and exactly 100 ms after it where reads
  take no time and sleeps last as long as asked. Every read before the last finds the
  session busy. If the last read finds it idle the call returns at once. Otherwise
  the call raises TimeoutError: the time elapsed is then more than the budget, it was
  not more than the budget at the check of the turn before, so the error comes no
  later than one turn of the loop after the budget is used up (at most 100 ms after
  it where reads take no time and sleeps last as long as asked), and there are at most
  \<open>timeout * 10 + 1\<close> sleeps.
\<close>

theorem wait_not_busy_contract:
  assumes "0 \<le> timeout"
  shows "\<exists>n. snd (wait_not_busy env timeout w) =
            w\<lparr>clock := after_read env ((next_read env ^^ n) (clock w)),
              trace := trace w
                @ map (\<lambda>k. BusyRead ((next_read env ^^ k) (clock w))) [0..<Suc n]\<rparr>
         \<and> (\<forall>k<n. Busy env ((next_read env ^^ k) (clock w))
                   \<and> (next_read env ^^ k) (clock w) + 1 / 10
                       \<le> (next_read env ^^ Suc k) (clock w))
         \<and> fst (wait_not_busy env timeout w) =
             (if Busy env ((next_read env ^^ n) (clock w))
              then Inl (TimeoutError ''SAP ficou ocupado tempo demais (Busy).'') else Inr ())
         \<and> (Busy env ((next_read env ^^ n) (clock w)) \<longrightarrow>
              timeout < after_read env ((next_read env ^^ n) (clock w)) - clock w
              \<and> (0 < n \<longrightarrow>
                   after_read env ((next_read env ^^ (n - 1)) (clock w)) - clock w \<le> timeout))
         \<and> of_nat n \<le> timeout * 10 + 1
         \<and> ((\<forall>s. read_delay env s \<le> 0 \<and> oversleep env s \<le> 0) \<longrightarrow>
              (\<forall>k\<le>n. (next_read env ^^ k) (clock w) = clock w + of_nat k / 10)
              \<and> (Busy env ((next_read env ^^ n) (clock w)) \<longrightarrow>
                   after_read env ((next_read env ^^ n) (clock w)) - clock w
                     \<le> timeout + 1 / 10))"
proof -
  let ?r = "\<lambda>k. (next_read env ^^ k) (clock w)"
  obtain n where
    s: "snd (wait_loop env (clock w) timeout w) =
          w\<lparr>clock := after_read env (?r n),
            trace := trace w @ map (\<lambda>k. BusyRead (?r k)) [0..<Suc n]\<rparr>"
    and b: "\<forall>k<n. Busy env (?r k) \<and> after_read env (?r k) - clock w \<le> timeout"
    and f: "fst (wait_loop env (clock w) timeout w) =
           (if Busy env (?r n)
            then Inl (TimeoutError ''SAP ficou ocupado tempo demais (Busy).'') else Inr ())"
    and t: "Busy env (?r n) \<longrightarrow> timeout < after_read env (?r n) - clock w"
    using wait_loop_run [of env "clock w" timeout w] by blast
  have before: "after_read env (?r (n - 1)) - clock w \<le> timeout" if "0 < n"
    using b that by simp
  have apart: "\<forall>k<n. Busy env (?r k) \<and> ?r k + 1 / 10 \<le> ?r (Suc k)"
    using b next_read_later [of _ env] by simp
  have bound: "of_nat n \<le> timeout * 10 + 1"
  proof (cases n)
    case 0
    with assms show ?thesis by simp
  next
    case (Suc m)
    with b have "after_read env (?r m) - clock w \<le> timeout" by simp
    moreover have "clock w + of_nat m / 10 \<le> ?r m" by (rule reads_apart)
    moreover have "?r m \<le> after_read env (?r m)" by (rule after_read_later)
    ultimately have "of_nat m / 10 \<le> timeout" by linarith
    then show ?thesis by (simp add: Suc)
  qed
  have ideal: "(\<forall>k\<le>n. ?r k = clock w + of_nat k / 10)
      \<and> (Busy env (?r n) \<longrightarrow> after_read env (?r n) - clock w \<le> timeout + 1 / 10)"
    if i: "\<forall>s. read_delay env s \<le> 0 \<and> oversleep env s \<le> 0"
  proof -
    have r: "?r k = clock w + of_nat k / 10" for k
      using i by (rule reads_exact)
    from i have a: "after_read env s = s" for s
      by (simp add: after_read_def max_absorb1)
    have e: "after_read env (?r k) - clock w = of_nat k / 10" for k
      by (simp only: a r add_diff_cancel_left')
    have "of_nat n / 10 \<le> timeout + 1 / 10"
    proof (cases n)
      case 0
      with assms show ?thesis by simp
    next
      case (Suc m)
      with b have "after_read env (?r m) - clock w \<le> timeout" by simp
      then have "of_nat m / 10 \<le> timeout" by (simp only: e)
      then show ?thesis by (simp add: Suc add_divide_distrib)
    qed
    then have "after_read env (?r n) - clock w \<le> timeout + 1 / 10"
      by (simp only: e)
    with r show ?thesis by simp
  qed
  from s apart f t before bound ideal show ?thesis
    unfolding wait_not_busy_def by (intro exI [of _ n]) blast
qed

theorem wait_not_busy_contract_witness:
  "(0::rat) \<le> 1
   \<and> fst (wait_not_busy (env_ok\<lparr>Busy := \<lambda>t. True, oversleep := \<lambda>t. 1 / 5000\<rparr>) 1 w_init)
       = Inl (TimeoutError ''SAP ficou ocupado tempo demais (Busy).'')
   \<and> 1 < clock (snd (wait_not_busy (env_ok\<lparr>Busy := \<lambda>t. True, oversleep := \<lambda>t. 1 / 5000\<rparr>) 1
                        w_init)) - clock w_init"
proof -
  let ?env = "env_ok\<lparr>Busy := \<lambda>t. True, oversleep := \<lambda>t. 1 / 5000\<rparr>"
  have h: "(0::rat) \<le> 1" by simp
  from wait_not_busy_contract [OF h, of ?env w_init]
  obtain n where
    s: "snd (wait_not_busy ?env 1 w_init) =
          w_init\<lparr>clock := after_read ?env ((next_read ?env ^^ n) (clock w_init)),
            trace := trace w_init
              @ map (\<lambda>k. BusyRead ((next_read ?env ^^ k) (clock w_init))) [0..<Suc n]\<rparr>"
    and f: "fst (wait_not_busy ?env 1 w_init) =
             Inl (TimeoutError ''SAP ficou ocupado tempo demais (Busy).'')"
    and t: "1 < after_read ?env ((next_read ?env ^^ n) (clock w_init)) - clock w_init"
    by auto
  from s have "clock (snd (wait_not_busy ?env 1 w_init))
      = after_read ?env ((next_read ?env ^^ n) (clock w_init))"
    by simp
  with f t show ?thesis by simp
qed

text \<open>
  In that environment, where every sleep lasts 100.2 ms, the budget of one second is
  used up after ten sleeps: the eleventh read raises, 1.002 seconds after the call.
\<close>

lemma wait_not_busy_oversleep_example:
  "wait_not_busy (env_ok\<lparr>Busy := \<lambda>t. True, oversleep := \<lambda>t. 1 / 5000\<rparr>) 1 w_init =
     (Inl (TimeoutError ''SAP ficou ocupado tempo demais (Busy).''),
      w_init\<lparr>clock := 501 / 500,
             trace := map (\<lambda>k. BusyRead (of_nat k * (501 / 5000))) [0..<11]\<rparr>)"
  by (simp add: wait_not_busy_def wait_loop.simps Let_def env_ok_def w_init_def upt_rec)

section \<open>Properties of the field-push sequencer\<close>

text \<open>
  Claim C8. On an operating system whose name does not start with \<^verbatim>\<open>win\<close>,
  \<open>push_to_sap\<close> raises the RuntimeError that says Windows is required and leaves the
  world as it was: no session is connected, no command reaches SAP GUI, and the
  clipboard is untouched.
\<close>

theorem push_to_sap_unsupported_platform:
  assumes "\<not> startswith (lower (platform_system env)) ''win''"
  shows "push_to_sap env os_str long_texts visible_rows save_after connection_index
           session_index progress_cb log_cb w
         = (Inl (RuntimeError ''Este envio ao SAP requer Windows (SAP GUI + COM).''), w)"
  using assms by (simp add: push_to_sap_def raise_def)

theorem push_to_sap_unsupported_platform_witness:
  "\<not> startswith (lower (platform_system (env_ok\<lparr>platform_system := ''Linux''\<rparr>))) ''win''
   \<and> push_to_sap (env_ok\<lparr>platform_system := ''Linux''\<rparr>) (ustr ''6000794541'')
       [ustr ''a'', ustr ''b''] 15 True
       0 0 True True w_init
     = (Inl (RuntimeError ''Este envio ao SAP requer Windows (SAP GUI + COM).''), w_init)"
proof -
  have h: "\<not> startswith (lower (platform_system (env_ok\<lparr>platform_system := ''Linux''\<rparr>))) ''win''"
    by (simp add: env_ok_def startswith_def lower_def lower_char_def)
  show ?thesis
    using h push_to_sap_unsupported_platform [OF h] by simp
qed

text \<open>What a call adds to the commands when it returns.\<close>

lemma commands_append [simp]: "commands (xs @ ys) = commands xs @ commands ys"
  by (simp add: commands_def)

lemma commands_polls [simp]: "commands (map (\<lambda>k. BusyRead (f k)) ks) = []"
  by (induction ks) (simp_all add: commands_def)

lemma yields_eq: "yields m x es \<Longrightarrow> es = es' \<Longrightarrow> yields m x es'"
  by simp

lemma yields_return: "yields (return x) x []"
  by (simp add: yields_def return_def)

lemma yields_emit: "\<not> is_BusyRead ev \<Longrightarrow> yields (emit ev) () [ev]"
  by (auto simp: yields_def emit_def commands_def)

lemma yields_and_then:
  assumes "yields m x es1" and "yields (f x) y es2"
  shows "yields (and_then m f) y (es1 @ es2)"
  unfolding yields_def
proof (intro allI impI)
  fix w z w'
  assume run: "and_then m f w = (Inr z, w')"
  then obtain x' w1 where m: "m w = (Inr x', w1)" and f: "f x' w1 = (Inr z, w')"
    by (auto simp: and_then_def split: prod.splits sum.splits)
  from assms(1) m have "x' = x" and c1: "commands (trace w1) = commands (trace w) @ es1"
    by (auto simp: yields_def)
  with assms(2) f have "z = y" and "commands (trace w') = commands (trace w1) @ es2"
    by (auto simp: yields_def)
  with c1 show "z = y \<and> commands (trace w') = commands (trace w) @ es1 @ es2"
    by simp
qed

lemma yields_seq:
  "yields m () es1 \<Longrightarrow> yields n y es2 \<Longrightarrow> yields (seq m n) y (es1 @ es2)"
  unfolding seq_def by (rule yields_and_then [where x = "()"])

lemma yields_steps_Nil: "yields (steps []) () []"
  by (simp add: yields_return)

lemma yields_steps_Cons:
  "yields m () es1 \<Longrightarrow> yields (steps ms) () es2 \<Longrightarrow> yields (steps (m # ms)) () (es1 @ es2)"
  by (simp add: yields_seq)

lemma yields_if_do: "yields m () es \<Longrightarrow> yields (if_do b m) () (if b then es else [])"
  by (simp add: if_do_def yields_return)

lemma yields_findById: "yields (findById env ident) () [FoundById ident]"
  by (auto simp: yields_def findById_def emit_def raise_def commands_def)

lemma yields_read_attr:
  "yields (read_attr env ident name) () [FoundById ident, AttrRead ident name]"
  unfolding read_attr_def using yields_seq [OF yields_findById yields_emit] by simp

lemma yields_assign_attr:
  "yields (assign_attr env ident name v) () [FoundById ident, AttrSet ident name v]"
  unfolding assign_attr_def using yields_seq [OF yields_findById yields_emit] by simp

lemma yields_call_method:
  "yields (call_method env ident name args) () [FoundById ident, MethodCalled ident name args]"
  unfolding call_method_def using yields_seq [OF yields_findById yields_emit] by simp

lemma yields_wait_not_busy: "yields (wait_not_busy env timeout) () []"
  unfolding yields_def wait_not_busy_def
proof (intro allI impI)
  fix w y w'
  assume run: "wait_loop env (clock w) timeout w = (Inr y, w')"
  from wait_loop_run [of env "clock w" timeout w] run
  obtain n where "w' = w\<lparr>clock := after_read env ((next_read env ^^ n) (clock w)),
      trace := trace w @ map (\<lambda>k. BusyRead ((next_read env ^^ k) (clock w))) [0..<Suc n]\<rparr>"
    by auto
  then show "y = () \<and> commands (trace w') = commands (trace w) @ []"
    by (simp del: upt_Suc)
qed

lemma yields_connect_sap_session:
  "yields (connect_sap_session env connection_index session_index) ()
     [Connected connection_index session_index]"
  by (auto simp: yields_def connect_sap_session_def emit_def raise_def commands_def)

lemma yields_set_clipboard:
  "yields (set_clipboard env (Some texto)) ()
     [ClipboardOpened, ClipboardEmptied, ClipboardTextSet (replace LF [CR, LF] texto),
      ClipboardClosed]"
  by (auto simp: yields_def set_clipboard_cases Let_def commands_def split: if_splits)

lemma yields_scroll_tbl:
  "yields (scroll_tbl i visible_rows)
     (i - (if i < visible_rows then 0 else i - (visible_rows - 1)))
     [Scrolled (if i < visible_rows then 0 else i - (visible_rows - 1))]"
  by (auto simp: yields_def scroll_tbl_def ensure_visible_def Let_def commands_def)

lemma yields_truediv: "yields (truediv a b) (of_int a / of_int b) []"
  by (simp add: yields_def truediv_def return_def raise_def)

lemma yields_open_iw32_and_load_os:
  "yields (open_iw32_and_load_os env os_str) ()
     [FoundById OKCD_ID, AttrSet OKCD_ID ''text'' (StrArg (ustr ''/nIW32'')),
      FoundById ''wnd[0]'', MethodCalled ''wnd[0]'' ''sendVKey'' [IntArg 0],
      FoundById OS_FIELD_ID, AttrSet OS_FIELD_ID ''text'' (StrArg os_str),
      FoundById OS_FIELD_ID,
      AttrSet OS_FIELD_ID ''caretPosition'' (IntArg (int (length os_str))),
      FoundById ''wnd[0]'', MethodCalled ''wnd[0]'' ''sendVKey'' [IntArg 0]]"
proof -
  have "yields (open_iw32_and_load_os env os_str) ()
     ([FoundById OKCD_ID, AttrSet OKCD_ID ''text'' (StrArg (ustr ''/nIW32''))]
      @ [FoundById ''wnd[0]'', MethodCalled ''wnd[0]'' ''sendVKey'' [IntArg 0]] @ []
      @ [FoundById OS_FIELD_ID, AttrSet OS_FIELD_ID ''text'' (StrArg os_str)]
      @ [FoundById OS_FIELD_ID,
         AttrSet OS_FIELD_ID ''caretPosition'' (IntArg (int (length os_str)))]
      @ [FoundById ''wnd[0]'', MethodCalled ''wnd[0]'' ''sendVKey'' [IntArg 0]] @ [] @ [])"
    unfolding open_iw32_and_load_os_def
    by (intro yields_steps_Cons yields_steps_Nil yields_assign_attr yields_call_method
        yields_wait_not_busy)
  then show ?thesis by (rule yields_eq) simp
qed

lemma yields_push_row:
  "yields (push_row env visible_rows progress_cb log_cb total' i texto) ()
     (row_commands visible_rows progress_cb log_cb total' i texto)"
proof -
  let ?p = "if i < visible_rows then 0 else i - (visible_rows - 1)"
  have progress: "yields
      (if_do progress_cb
         (and_then (truediv (i + 1) (max total' 1)) (\<lambda>v. emit (ProgressCalled v)))) ()
      (if progress_cb then [] @ [ProgressCalled (of_int (i + 1) / of_int (max total' 1))] else [])"
    by (rule yields_if_do, rule yields_and_then [OF yields_truediv yields_emit]) simp
  have rest: "yields
      (steps [
            read_attr env (BTN_TEXTO_LONGO_FMT (i - ?p)) ''press'',
            wait_not_busy env 60,
            set_clipboard env (Some texto),
            read_attr env LONGTEXT_SHELL_ID ''setDocum'',
            wait_not_busy env 60,
            read_attr env BTN_BACK_ID ''press'',
            wait_not_busy env 60,
            if_do log_cb
              (emit (LogCalled (ustr (''Linha '' @ str_int (i + 1) @ ''/'' @ str_int total'
                                      @ '': texto longo aplicado.''))))]) ()
      ([FoundById (BTN_TEXTO_LONGO_FMT (i - ?p)),
        AttrRead (BTN_TEXTO_LONGO_FMT (i - ?p)) ''press''] @ [] @
       [ClipboardOpened, ClipboardEmptied, ClipboardTextSet (replace LF [CR, LF] texto),
        ClipboardClosed] @
       [FoundById LONGTEXT_SHELL_ID, AttrRead LONGTEXT_SHELL_ID ''setDocum''] @ [] @
       [FoundById BTN_BACK_ID, AttrRead BTN_BACK_ID ''press''] @ [] @
       (if log_cb
        then [LogCalled (ustr (''Linha '' @ str_int (i + 1) @ ''/'' @ str_int total'
                               @ '': texto longo aplicado.''))]
        else []) @ [])"
    by (intro yields_steps_Cons yields_steps_Nil yields_read_attr yields_wait_not_busy
        yields_set_clipboard yields_if_do yields_emit) simp_all
  have "yields (push_row env visible_rows progress_cb log_cb total' i texto) ()
     ((if progress_cb then [] @ [ProgressCalled (of_int (i + 1) / of_int (max total' 1))] else [])
      @ [Scrolled ?p] @
      ([FoundById (BTN_TEXTO_LONGO_FMT (i - ?p)),
        AttrRead (BTN_TEXTO_LONGO_FMT (i - ?p)) ''press''] @ [] @
       [ClipboardOpened, ClipboardEmptied, ClipboardTextSet (replace LF [CR, LF] texto),
        ClipboardClosed] @
       [FoundById LONGTEXT_SHELL_ID, AttrRead LONGTEXT_SHELL_ID ''setDocum''] @ [] @
       [FoundById BTN_BACK_ID, AttrRead BTN_BACK_ID ''press''] @ [] @
       (if log_cb
        then [LogCalled (ustr (''Linha '' @ str_int (i + 1) @ ''/'' @ str_int total'
                               @ '': texto longo aplicado.''))]
        else []) @ []))"
    unfolding push_row_def
    by (rule yields_seq [OF progress], rule yields_and_then [OF yields_scroll_tbl], rule rest)
  then show ?thesis by (rule yields_eq) (simp add: row_commands_def)
qed

lemma yields_push_rows:
  "yields (push_rows env visible_rows progress_cb log_cb total' (int n) long_texts) ()
     (concat (map (\<lambda>(k, texto). row_commands visible_rows progress_cb log_cb total' (int k) texto)
                  (enumerate n long_texts)))"
proof (induction long_texts arbitrary: n)
  case Nil
  show ?case by (simp add: yields_return)
next
  case (Cons texto rest)
  have "yields (push_rows env visible_rows progress_cb log_cb total' (int n + 1) rest) ()
     (concat (map (\<lambda>(k, texto). row_commands visible_rows progress_cb log_cb total' (int k) texto)
                  (enumerate (Suc n) rest)))"
    using Cons [of "Suc n"] by (simp add: add.commute)
  from yields_seq [OF yields_push_row this] show ?case
    by simp
qed

lemma yields_push_to_sap:
  "yields (push_to_sap env os_str long_texts visible_rows save_after connection_index
             session_index progress_cb log_cb) True
     (run_commands os_str long_texts visible_rows save_after connection_index session_index
        progress_cb log_cb)"
proof (cases "startswith (lower (platform_system env)) ''win''")
  case False
  then show ?thesis by (simp add: push_to_sap_def yields_def raise_def)
next
  case True
  have save: "yields
      (if_do save_after
         (steps [
            if_do log_cb (emit (LogCalled (ustr ''Salvando a ordem...''))),
            read_attr env BTN_SAVE_ID ''press'',
            wait_not_busy env 60])) ()
      (if save_after
       then (if log_cb then [LogCalled (ustr ''Salvando a ordem...'')] else [])
            @ [FoundById BTN_SAVE_ID, AttrRead BTN_SAVE_ID ''press''] @ [] @ []
       else [])"
    by (intro yields_if_do yields_steps_Cons yields_steps_Nil yields_read_attr
        yields_wait_not_busy yields_emit) simp_all
  have rows: "yields
      (push_rows env visible_rows progress_cb log_cb (int (length long_texts)) 0 long_texts) ()
      (concat (map (\<lambda>(k, texto). row_commands visible_rows progress_cb log_cb
                                    (int (length long_texts)) (int k) texto)
                   (enumerate 0 long_texts)))"
    using yields_push_rows [of env visible_rows progress_cb log_cb "int (length long_texts)" 0
        long_texts]
    by simp
  have run: "yields
     (seq (steps [
               connect_sap_session env connection_index session_index,
               read_attr env ''wnd[0]'' ''maximize'',
               if_do log_cb
                 (emit (LogCalled (ustr ''Abrindo IW32 e carregando OS '' @ os_str
                                   @ ustr ''...''))),
               open_iw32_and_load_os env os_str,
               read_attr env TAB_OPERACOES_ID ''select'',
               wait_not_busy env 60,
               findById env TBL_PATH,
               push_rows env visible_rows progress_cb log_cb (int (length long_texts)) 0
                 long_texts,
               if_do save_after
                 (steps [
                    if_do log_cb (emit (LogCalled (ustr ''Salvando a ordem...''))),
                    read_attr env BTN_SAVE_ID ''press'',
                    wait_not_busy env 60]),
               if_do progress_cb (emit (ProgressCalled 1))])
          (return True)) True
     (([Connected connection_index session_index]
       @ [FoundById ''wnd[0]'', AttrRead ''wnd[0]'' ''maximize'']
       @ (if log_cb
          then [LogCalled (ustr ''Abrindo IW32 e carregando OS '' @ os_str @ ustr ''...'')]
          else [])
       @ [FoundById OKCD_ID, AttrSet OKCD_ID ''text'' (StrArg (ustr ''/nIW32'')),
          FoundById ''wnd[0]'', MethodCalled ''wnd[0]'' ''sendVKey'' [IntArg 0],
          FoundById OS_FIELD_ID, AttrSet OS_FIELD_ID ''text'' (StrArg os_str),
          FoundById OS_FIELD_ID,
          AttrSet OS_FIELD_ID ''caretPosition'' (IntArg (int (length os_str))),
          FoundById ''wnd[0]'', MethodCalled ''wnd[0]'' ''sendVKey'' [IntArg 0]]
       @ [FoundById TAB_OPERACOES_ID, AttrRead TAB_OPERACOES_ID ''select''] @ []
       @ [FoundById TBL_PATH]
       @ concat (map (\<lambda>(k, texto). row_commands visible_rows progress_cb log_cb
                                     (int (length long_texts)) (int k) texto)
                     (enumerate 0 long_texts))
       @ (if save_after
          then (if log_cb then [LogCalled (ustr ''Salvando a ordem...'')] else [])
               @ [FoundById BTN_SAVE_ID, AttrRead BTN_SAVE_ID ''press''] @ [] @ []
          else [])
       @ (if progress_cb then [ProgressCalled 1] else []) @ []) @ [])"
    by (intro yields_seq yields_return yields_steps_Cons yields_steps_Nil
        yields_connect_sap_session yields_read_attr yields_if_do yields_emit
        yields_open_iw32_and_load_os yields_wait_not_busy yields_findById rows save)
      simp_all
  show ?thesis
    unfolding push_to_sap_def using True
    by (simp only: not_not if_False if_True simp_thms)
      (rule yields_eq [OF run], simp add: run_commands_def)
qed

lemma never_raises_return: "never_raises e (return x)"
  by (simp add: never_raises_def return_def)

lemma never_raises_emit: "never_raises e (emit ev)"
  by (simp add: never_raises_def emit_def)

lemma never_raises_and_then:
  "never_raises e m \<Longrightarrow> (\<And>x. never_raises e (f x)) \<Longrightarrow> never_raises e (and_then m f)"
  by (auto simp: never_raises_def and_then_def split: prod.splits sum.splits)
    (metis fst_conv)+

lemma never_raises_seq:
  "never_raises e m \<Longrightarrow> never_raises e n \<Longrightarrow> never_raises e (seq m n)"
  by (simp add: seq_def never_raises_and_then)

lemma never_raises_steps_Nil: "never_raises e (steps [])"
  by (simp add: never_raises_return)

lemma never_raises_steps_Cons:
  "never_raises e m \<Longrightarrow> never_raises e (steps ms) \<Longrightarrow> never_raises e (steps (m # ms))"
  by (simp add: never_raises_seq)

lemma never_raises_if_do: "never_raises e m \<Longrightarrow> never_raises e (if_do b m)"
  by (simp add: if_do_def never_raises_return)

lemma no_zero_division_findById: "never_raises ZeroDivisionError (findById env ident)"
  by (simp add: never_raises_def findById_def emit_def raise_def)

lemma no_zero_division_read_attr: "never_raises ZeroDivisionError (read_attr env ident name)"
  by (simp add: read_attr_def never_raises_seq no_zero_division_findById never_raises_emit)

lemma no_zero_division_assign_attr:
  "never_raises ZeroDivisionError (assign_attr env ident name v)"
  by (simp add: assign_attr_def never_raises_seq no_zero_division_findById never_raises_emit)

lemma no_zero_division_call_method:
  "never_raises ZeroDivisionError (call_method env ident name args)"
  by (simp add: call_method_def never_raises_seq no_zero_division_findById never_raises_emit)

lemma no_zero_division_wait_not_busy: "never_raises ZeroDivisionError (wait_not_busy env timeout)"
  unfolding never_raises_def wait_not_busy_def
proof
  fix w
  from wait_loop_run [of env "clock w" timeout w]
  show "fst (wait_loop env (clock w) timeout w) \<noteq> Inl ZeroDivisionError"
    by (auto split: if_splits)
qed

lemma no_zero_division_connect_sap_session:
  "never_raises ZeroDivisionError (connect_sap_session env connection_index session_index)"
  by (simp add: never_raises_def connect_sap_session_def emit_def raise_def)

lemma no_zero_division_set_clipboard: "never_raises ZeroDivisionError (set_clipboard env texto)"
  by (simp add: never_raises_def set_clipboard_cases Let_def)

lemma no_zero_division_scroll_tbl: "never_raises e (scroll_tbl i visible_rows)"
  by (simp add: never_raises_def scroll_tbl_def split: prod.splits)

lemma no_zero_division_truediv: "b \<noteq> 0 \<Longrightarrow> never_raises e (truediv a b)"
  by (simp add: never_raises_def truediv_def return_def)

lemma no_zero_division_open_iw32_and_load_os:
  "never_raises ZeroDivisionError (open_iw32_and_load_os env os_str)"
  unfolding open_iw32_and_load_os_def
  by (intro never_raises_steps_Cons never_raises_steps_Nil no_zero_division_assign_attr
      no_zero_division_call_method no_zero_division_wait_not_busy)

lemma no_zero_division_push_row:
  "never_raises ZeroDivisionError (push_row env visible_rows progress_cb log_cb total' i texto)"
proof -
  have "max total' 1 \<noteq> 0" by simp
  then show ?thesis
    unfolding push_row_def
    by (intro never_raises_seq never_raises_and_then never_raises_if_do never_raises_emit
        never_raises_steps_Cons never_raises_steps_Nil no_zero_division_read_attr
        no_zero_division_wait_not_busy no_zero_division_set_clipboard
        no_zero_division_scroll_tbl no_zero_division_truediv)
qed

lemma no_zero_division_push_rows:
  "never_raises ZeroDivisionError (push_rows env visible_rows progress_cb log_cb total' i long_texts)"
  by (induction long_texts arbitrary: i)
    (simp_all add: never_raises_return never_raises_seq no_zero_division_push_row)

lemma no_zero_division_push_to_sap:
  "never_raises ZeroDivisionError
     (push_to_sap env os_str long_texts visible_rows save_after connection_index session_index
        progress_cb log_cb)"
proof (cases "startswith (lower (platform_system env)) ''win''")
  case False
  then show ?thesis by (simp add: push_to_sap_def never_raises_def raise_def)
next
  case True
  then show ?thesis
    unfolding push_to_sap_def
    by (simp del: steps.simps)
      (intro never_raises_seq never_raises_return never_raises_steps_Cons never_raises_steps_Nil
        never_raises_if_do never_raises_emit no_zero_division_connect_sap_session
        no_zero_division_read_attr no_zero_division_open_iw32_and_load_os
        no_zero_division_wait_not_busy no_zero_division_findById no_zero_division_push_rows)
qed

text \<open>In a cooperative environment every call returns.\<close>

lemma succeeds_return: "succeeds (return x)"
  by (simp add: succeeds_def return_def)

lemma succeeds_emit: "succeeds (emit ev)"
  by (simp add: succeeds_def emit_def)

lemma succeeds_and_then:
  assumes "succeeds m" and "\<And>x. succeeds (f x)"
  shows "succeeds (and_then m f)"
  unfolding succeeds_def
proof
  fix w
  from assms(1) obtain x w1 where m: "m w = (Inr x, w1)"
    unfolding succeeds_def by blast
  from assms(2) [of x] obtain y w' where "f x w1 = (Inr y, w')"
    unfolding succeeds_def by blast
  with m show "\<exists>y w'. and_then m f w = (Inr y, w')"
    by (simp add: and_then_def)
qed

lemma succeeds_seq: "succeeds m \<Longrightarrow> succeeds n \<Longrightarrow> succeeds (seq m n)"
  by (simp add: seq_def succeeds_and_then)

lemma succeeds_steps_Nil: "succeeds (steps [])"
  by (simp add: succeeds_return)

lemma succeeds_steps_Cons: "succeeds m \<Longrightarrow> succeeds (steps ms) \<Longrightarrow> succeeds (steps (m # ms))"
  by (simp add: succeeds_seq)

lemma succeeds_if_do: "succeeds m \<Longrightarrow> succeeds (if_do b m)"
  by (simp add: if_do_def succeeds_return)

lemma succeeds_findById: "find_ok env ident \<Longrightarrow> succeeds (findById env ident)"
  by (simp add: findById_def succeeds_emit)

lemma succeeds_read_attr: "find_ok env ident \<Longrightarrow> succeeds (read_attr env ident name)"
  by (simp add: read_attr_def succeeds_seq succeeds_findById succeeds_emit)

lemma succeeds_assign_attr: "find_ok env ident \<Longrightarrow> succeeds (assign_attr env ident name v)"
  by (simp add: assign_attr_def succeeds_seq succeeds_findById succeeds_emit)

lemma succeeds_call_method:
  "find_ok env ident \<Longrightarrow> succeeds (call_method env ident name args)"
  by (simp add: call_method_def succeeds_seq succeeds_findById succeeds_emit)

lemma succeeds_wait_not_busy:
  assumes "\<forall>t. \<not> Busy env t"
  shows "succeeds (wait_not_busy env timeout)"
  unfolding succeeds_def wait_not_busy_def
proof
  fix w
  from wait_loop_run [of env "clock w" timeout w] assms
  have "fst (wait_loop env (clock w) timeout w) = Inr ()"
    by auto
  then show "\<exists>x w'. wait_loop env (clock w) timeout w = (Inr x, w')"
    by (metis prod.collapse)
qed

lemma succeeds_connect_sap_session:
  "connect_ok env connection_index session_index \<Longrightarrow>
     succeeds (connect_sap_session env connection_index session_index)"
  by (simp add: connect_sap_session_def succeeds_emit)

lemma succeeds_set_clipboard:
  "OpenClipboard_ok env \<Longrightarrow> EmptyClipboard_ok env \<Longrightarrow> SetClipboardText_ok env \<Longrightarrow>
     succeeds (set_clipboard env texto)"
  by (simp add: succeeds_def set_clipboard_cases Let_def)

lemma succeeds_scroll_tbl: "succeeds (scroll_tbl i visible_rows)"
  by (simp add: succeeds_def scroll_tbl_def split: prod.splits)

lemma succeeds_truediv: "b \<noteq> 0 \<Longrightarrow> succeeds (truediv a b)"
  by (simp add: truediv_def succeeds_return)

lemma succeeds_open_iw32_and_load_os:
  "cooperative env connection_index session_index \<Longrightarrow>
     succeeds (open_iw32_and_load_os env os_str)"
  unfolding open_iw32_and_load_os_def cooperative_def
  by (intro succeeds_steps_Cons succeeds_steps_Nil succeeds_assign_attr succeeds_call_method
      succeeds_wait_not_busy) simp_all

lemma succeeds_push_row:
  assumes "cooperative env connection_index session_index"
  shows "succeeds (push_row env visible_rows progress_cb log_cb total' i texto)"
proof -
  have "max total' 1 \<noteq> 0" by simp
  with assms show ?thesis
    unfolding push_row_def cooperative_def
    by (intro succeeds_seq succeeds_and_then succeeds_if_do succeeds_emit succeeds_steps_Cons
        succeeds_steps_Nil succeeds_read_attr succeeds_wait_not_busy succeeds_set_clipboard
        succeeds_scroll_tbl succeeds_truediv) simp_all
qed

lemma succeeds_push_rows:
  "cooperative env connection_index session_index \<Longrightarrow>
     succeeds (push_rows env visible_rows progress_cb log_cb total' i long_texts)"
  by (induction long_texts arbitrary: i)
    (simp_all add: succeeds_return succeeds_seq succeeds_push_row)

lemma succeeds_push_to_sap:
  assumes "cooperative env connection_index session_index"
  shows "succeeds (push_to_sap env os_str long_texts visible_rows save_after connection_index
                     session_index progress_cb log_cb)"
proof -
  from assms have win: "startswith (lower (platform_system env)) ''win''"
    and ok: "connect_ok env connection_index session_index" "\<forall>ident. find_ok env ident"
      "\<forall>t. \<not> Busy env t"
    by (simp_all add: cooperative_def)
  show ?thesis
    unfolding push_to_sap_def using win
    by (simp only: not_not if_False if_True simp_thms)
      (intro succeeds_seq succeeds_return succeeds_steps_Cons succeeds_steps_Nil
        succeeds_if_do succeeds_emit succeeds_connect_sap_session succeeds_read_attr
        succeeds_open_iw32_and_load_os [OF assms] succeeds_wait_not_busy succeeds_findById
        succeeds_push_rows [OF assms] ok ok [rule_format])
qed

text \<open>A run that returns, and a run in a cooperative environment.\<close>

lemma push_to_sap_returns:
  assumes "fst (push_to_sap env os_str long_texts visible_rows save_after connection_index
                  session_index progress_cb log_cb w) = Inr r"
  shows "r = True
       \<and> commands (trace (snd (push_to_sap env os_str long_texts visible_rows save_after
                                  connection_index session_index progress_cb log_cb w)))
         = commands (trace w)
           @ run_commands os_str long_texts visible_rows save_after connection_index
               session_index progress_cb log_cb"
proof -
  from assms have "push_to_sap env os_str long_texts visible_rows save_after connection_index
      session_index progress_cb log_cb w
    = (Inr r, snd (push_to_sap env os_str long_texts visible_rows save_after connection_index
                     session_index progress_cb log_cb w))"
    by (metis prod.collapse)
  with yields_push_to_sap [of env os_str long_texts visible_rows save_after connection_index
      session_index progress_cb log_cb]
  show ?thesis unfolding yields_def by blast
qed

lemma push_to_sap_cooperative:
  assumes "cooperative env connection_index session_index"
  shows "fst (push_to_sap env os_str long_texts visible_rows save_after connection_index
                session_index progress_cb log_cb w) = Inr True"
proof -
  from succeeds_push_to_sap [OF assms]
  obtain r w' where "push_to_sap env os_str long_texts visible_rows save_after connection_index
      session_index progress_cb log_cb w = (Inr r, w')"
    unfolding succeeds_def by blast
  then have "fst (push_to_sap env os_str long_texts visible_rows save_after connection_index
      session_index progress_cb log_cb w) = Inr r"
    by simp
  with push_to_sap_returns [OF this] show ?thesis by simp
qed

lemma cooperative_env_ok: "cooperative env_ok connection_index session_index"
  by (simp add: cooperative_def env_ok_def startswith_def lower_def lower_char_def)

text \<open>Reading the progress calls and the table events off the commands.\<close>

lemma progress_values_append [simp]:
  "progress_values (xs @ ys) = progress_values xs @ progress_values ys"
  by (simp add: progress_values_def)

lemma progress_values_commands: "progress_values (commands es) = progress_values es"
proof (induction es)
  case Nil
  show ?case by (simp add: commands_def)
next
  case (Cons e es)
  then show ?case
    by (cases e) (simp_all add: commands_def progress_values_def)
qed

lemma filter_commands:
  assumes "\<And>t. \<not> P (BusyRead t)"
  shows "filter P (commands es) = filter P es"
proof (induction es)
  case Nil
  show ?case by (simp add: commands_def)
next
  case (Cons e es)
  with assms show ?case
    by (cases e) (simp_all add: commands_def)
qed

lemma progress_values_rows:
  "progress_values
     (concat (map (\<lambda>(k, texto). row_commands visible_rows True log_cb total' (int k) texto)
                  (enumerate n long_texts)))
   = map (\<lambda>k. of_int (int k + 1) / of_int (max total' 1)) [n..<n + length long_texts]"
proof (induction long_texts arbitrary: n)
  case Nil
  show ?case by (simp add: progress_values_def)
next
  case (Cons texto rest)
  have u: "[n..<n + length (texto # rest)] = n # [Suc n..<Suc n + length rest]"
    by (simp add: upt_conv_Cons del: upt_Suc)
  have "progress_values (row_commands visible_rows True log_cb total' (int n) texto)
        = [of_int (int n + 1) / of_int (max total' 1)]"
    by (simp add: row_commands_def progress_values_def)
  with Cons [of "Suc n"] show ?case
    unfolding u by (simp del: upt_Suc)
qed

lemma progress_and_scrolls_rows:
  "filter is_progress_or_scroll
     (concat (map (\<lambda>(k, texto). row_commands visible_rows True log_cb total' (int k) texto)
                  (enumerate n long_texts)))
   = concat (map (\<lambda>k. [ProgressCalled (of_int (int k + 1) / of_int (max total' 1)),
                         Scrolled (if int k < visible_rows then 0
                                   else int k - (visible_rows - 1))])
                 [n..<n + length long_texts])"
proof (induction long_texts arbitrary: n)
  case Nil
  show ?case by simp
next
  case (Cons texto rest)
  have "filter is_progress_or_scroll (row_commands visible_rows True log_cb total' (int n) texto)
        = [ProgressCalled (of_int (int n + 1) / of_int (max total' 1)),
           Scrolled (if int n < visible_rows then 0 else int n - (visible_rows - 1))]"
    by (simp add: row_commands_def)
  moreover have "[n..<n + length (texto # rest)] = n # [Suc n..<Suc n + length rest]"
    by (simp add: upt_conv_Cons del: upt_Suc)
  ultimately show ?case
    using Cons [of "Suc n"] by (simp del: upt_Suc)
qed

lemma fraction_of_rows:
  "map (\<lambda>k. f (of_int (int k + 1) / of_int (max (int n) 1) :: rat)) [0..<n]
   = map (\<lambda>k. f (of_nat (Suc k) / of_nat n)) [0..<n]"
proof (rule map_cong [OF refl])
  fix k assume "k \<in> set [0..<n]"
  then have "max (int n) 1 = int n" by auto
  then show "f (of_int (int k + 1) / of_int (max (int n) 1)) = f (of_nat (Suc k) / of_nat n)"
    by (simp add: add.commute)
qed

lemma progress_values_Nil [simp]: "progress_values [] = []"
  by (simp add: progress_values_def)

lemma progress_values_Cons:
  "progress_values (e # es) = (case e of ProgressCalled v \<Rightarrow> [v] | _ \<Rightarrow> []) @ progress_values es"
  by (simp add: progress_values_def)

lemma progress_and_lookups_rows:
  "filter is_progress_or_lookup
     (concat (map (\<lambda>(k, texto). row_commands visible_rows True log_cb total' (int k) texto)
                  (enumerate n long_texts)))
   = concat (map (\<lambda>k. [ProgressCalled (of_int (int k + 1) / of_int (max total' 1)),
                         FoundById (BTN_TEXTO_LONGO_FMT
                                      (int k - (if int k < visible_rows then 0
                                                else int k - (visible_rows - 1)))),
                         FoundById LONGTEXT_SHELL_ID, FoundById BTN_BACK_ID])
                 [n..<n + length long_texts])"
proof (induction long_texts arbitrary: n)
  case Nil
  show ?case by simp
next
  case (Cons texto rest)
  have "filter is_progress_or_lookup (row_commands visible_rows True log_cb total' (int n) texto)
        = [ProgressCalled (of_int (int n + 1) / of_int (max total' 1)),
           FoundById (BTN_TEXTO_LONGO_FMT
                        (int n - (if int n < visible_rows then 0
                                  else int n - (visible_rows - 1)))),
           FoundById LONGTEXT_SHELL_ID, FoundById BTN_BACK_ID]"
    by (simp add: row_commands_def)
  moreover have "[n..<n + length (texto # rest)] = n # [Suc n..<Suc n + length rest]"
    by (simp add: upt_conv_Cons del: upt_Suc)
  ultimately show ?case
    using Cons [of "Suc n"] by (simp del: upt_Suc)
qed

text \<open>
  Claim C9. A run of \<open>push_to_sap\<close> on the empty list, on Windows with a session of
  SAP GUI, asked to save: the loop does nothing and the run returns \<open>True\<close> after a
  last progress call with 1. The navigation to the order is done: the transaction
  code and the order number are assigned and \<^verbatim>\<open>sendVKey(0)\<close> is called twice. The
  operations tab and the save button are looked up, and their attributes \<^verbatim>\<open>select\<close>
  and \<^verbatim>\<open>press\<close> are read, but neither is called: the two calls of \<^verbatim>\<open>sendVKey\<close> are
  the only method calls of the run, so no tab is selected and nothing is saved.
\<close>

theorem push_to_sap_no_rows:
  "fst (push_to_sap env_ok (ustr ''6000794541'') [] 15 True 0 0 True True w_init) = Inr True
   \<and> push_rows env_ok 15 True True (int (length ([] :: pystr list))) 0 [] w_init
       = (Inr (), w_init)
   \<and> commands (trace (snd (push_to_sap env_ok (ustr ''6000794541'') [] 15 True 0 0 True True
                              w_init)))
     = [Connected 0 0, FoundById ''wnd[0]'', AttrRead ''wnd[0]'' ''maximize'',
        LogCalled (ustr ''Abrindo IW32 e carregando OS 6000794541...''),
        FoundById OKCD_ID, AttrSet OKCD_ID ''text'' (StrArg (ustr ''/nIW32'')),
        FoundById ''wnd[0]'', MethodCalled ''wnd[0]'' ''sendVKey'' [IntArg 0],
        FoundById OS_FIELD_ID, AttrSet OS_FIELD_ID ''text'' (StrArg (ustr ''6000794541'')),
        FoundById OS_FIELD_ID, AttrSet OS_FIELD_ID ''caretPosition'' (IntArg 10),
        FoundById ''wnd[0]'', MethodCalled ''wnd[0]'' ''sendVKey'' [IntArg 0],
        FoundById TAB_OPERACOES_ID, AttrRead TAB_OPERACOES_ID ''select'',
        FoundById TBL_PATH,
        LogCalled (ustr ''Salvando a ordem...''),
        FoundById BTN_SAVE_ID, AttrRead BTN_SAVE_ID ''press'',
        ProgressCalled 1]
   \<and> filter is_MethodCalled
       (trace (snd (push_to_sap env_ok (ustr ''6000794541'') [] 15 True 0 0 True True w_init)))
     = [MethodCalled ''wnd[0]'' ''sendVKey'' [IntArg 0],
        MethodCalled ''wnd[0]'' ''sendVKey'' [IntArg 0]]"
proof -
  let ?run = "push_to_sap env_ok (ustr ''6000794541'') [] 15 True 0 0 True True w_init"
  have ok: "fst ?run = Inr True"
    by (rule push_to_sap_cooperative [OF cooperative_env_ok])
  from push_to_sap_returns [OF ok]
  have c: "commands (trace (snd ?run))
      = run_commands (ustr ''6000794541'') [] 15 True 0 0 True True"
    by (simp add: w_init_def commands_def)
  have l: "push_rows env_ok 15 True True (int (length ([] :: pystr list))) 0 [] w_init
      = (Inr (), w_init)"
    by (simp add: return_def)
  have "filter is_MethodCalled (trace (snd ?run))
      = filter is_MethodCalled (commands (trace (snd ?run)))"
    by (simp add: filter_commands)
  then have m: "filter is_MethodCalled (trace (snd ?run))
      = [MethodCalled ''wnd[0]'' ''sendVKey'' [IntArg 0],
         MethodCalled ''wnd[0]'' ''sendVKey'' [IntArg 0]]"
    unfolding c by (simp add: run_commands_def)
  have "run_commands (ustr ''6000794541'') [] 15 True 0 0 True True
      = [Connected 0 0, FoundById ''wnd[0]'', AttrRead ''wnd[0]'' ''maximize'',
        LogCalled (ustr ''Abrindo IW32 e carregando OS 6000794541...''),
        FoundById OKCD_ID, AttrSet OKCD_ID ''text'' (StrArg (ustr ''/nIW32'')),
        FoundById ''wnd[0]'', MethodCalled ''wnd[0]'' ''sendVKey'' [IntArg 0],
        FoundById OS_FIELD_ID, AttrSet OS_FIELD_ID ''text'' (StrArg (ustr ''6000794541'')),
        FoundById OS_FIELD_ID, AttrSet OS_FIELD_ID ''caretPosition'' (IntArg 10),
        FoundById ''wnd[0]'', MethodCalled ''wnd[0]'' ''sendVKey'' [IntArg 0],
        FoundById TAB_OPERACOES_ID, AttrRead TAB_OPERACOES_ID ''select'',
        FoundById TBL_PATH,
        LogCalled (ustr ''Salvando a ordem...''),
        FoundById BTN_SAVE_ID, AttrRead BTN_SAVE_ID ''press'',
        ProgressCalled 1]"
    by (simp add: run_commands_def ustr_def)
  with ok c l m show ?thesis
    by (simp only: simp_thms)
qed

text \<open>
  Claim C2, as amended. In a run of \<open>push_to_sap\<close> with a progress callback that
  returns, the callback is called once per row with \<open>(i + 1) / total\<close>, each time at
  the start of the row's turn, before the row is scrolled into view and before any of
  its elements is looked up, and once more with 1 at the end of the run, after the
  save button has been looked up when a save is asked for. So the values are
  \<open>1/n, ..., n/n, 1\<close>.
\<close>

theorem push_to_sap_progress_calls:
  assumes "fst (push_to_sap env os_str long_texts visible_rows save_after connection_index
                  session_index True log_cb w) = Inr r"
  shows "progress_values (trace (snd (push_to_sap env os_str long_texts visible_rows save_after
                                        connection_index session_index True log_cb w)))
         = progress_values (trace w)
           @ map (\<lambda>k. of_nat (Suc k) / of_nat (length long_texts)) [0..<length long_texts]
           @ [1]
       \<and> filter is_progress_or_scroll
           (trace (snd (push_to_sap env os_str long_texts visible_rows save_after
                          connection_index session_index True log_cb w)))
         = filter is_progress_or_scroll (trace w)
           @ concat (map (\<lambda>k. [ProgressCalled (of_nat (Suc k) / of_nat (length long_texts)),
                                 Scrolled (if int k < visible_rows then 0
                                           else int k - (visible_rows - 1))])
                         [0..<length long_texts])
           @ [ProgressCalled 1]
       \<and> filter is_progress_or_lookup
           (trace (snd (push_to_sap env os_str long_texts visible_rows save_after
                          connection_index session_index True log_cb w)))
         = filter is_progress_or_lookup (trace w)
           @ [FoundById ''wnd[0]'', FoundById OKCD_ID, FoundById ''wnd[0]'',
              FoundById OS_FIELD_ID, FoundById OS_FIELD_ID, FoundById ''wnd[0]'',
              FoundById TAB_OPERACOES_ID, FoundById TBL_PATH]
           @ concat (map (\<lambda>k. [ProgressCalled (of_nat (Suc k) / of_nat (length long_texts)),
                                 FoundById (BTN_TEXTO_LONGO_FMT
                                              (int k - (if int k < visible_rows then 0
                                                        else int k - (visible_rows - 1)))),
                                 FoundById LONGTEXT_SHELL_ID, FoundById BTN_BACK_ID])
                         [0..<length long_texts])
           @ (if save_after then [FoundById BTN_SAVE_ID] else [])
           @ [ProgressCalled 1]"
proof -
  let ?run = "push_to_sap env os_str long_texts visible_rows save_after connection_index
                session_index True log_cb w"
  let ?n = "length long_texts"
  from push_to_sap_returns [OF assms]
  have c: "commands (trace (snd ?run)) = commands (trace w)
      @ run_commands os_str long_texts visible_rows save_after connection_index session_index
          True log_cb"
    by simp
  have "progress_values (trace (snd ?run)) = progress_values (commands (trace (snd ?run)))"
    by (simp add: progress_values_commands)
  also have "\<dots> = progress_values (trace w)
      @ progress_values (run_commands os_str long_texts visible_rows save_after
          connection_index session_index True log_cb)"
    unfolding c by (simp add: progress_values_commands)
  also have "progress_values (run_commands os_str long_texts visible_rows save_after
          connection_index session_index True log_cb)
      = map (\<lambda>k. of_int (int k + 1) / of_int (max (int ?n) 1)) [0..<?n] @ [1]"
    unfolding run_commands_def
    by (simp add: progress_values_rows progress_values_Cons)
  also have "map (\<lambda>k. of_int (int k + 1) / of_int (max (int ?n) 1) :: rat) [0..<?n]
      = map (\<lambda>k. of_nat (Suc k) / of_nat ?n) [0..<?n]"
    using fraction_of_rows [of "\<lambda>v. v" "length long_texts"] .
  finally have pv: "progress_values (trace (snd ?run)) = progress_values (trace w)
      @ map (\<lambda>k. of_nat (Suc k) / of_nat ?n) [0..<?n] @ [1]" .
  have "filter is_progress_or_scroll (trace (snd ?run))
      = filter is_progress_or_scroll (commands (trace (snd ?run)))"
    by (simp add: filter_commands)
  also have "\<dots> = filter is_progress_or_scroll (trace w)
      @ filter is_progress_or_scroll (run_commands os_str long_texts visible_rows save_after
          connection_index session_index True log_cb)"
    unfolding c by (simp add: filter_commands)
  also have "filter is_progress_or_scroll (run_commands os_str long_texts visible_rows
          save_after connection_index session_index True log_cb)
      = concat (map (\<lambda>k. [ProgressCalled (of_int (int k + 1) / of_int (max (int ?n) 1)),
                            Scrolled (if int k < visible_rows then 0
                                      else int k - (visible_rows - 1))])
                    [0..<?n])
        @ [ProgressCalled 1]"
    unfolding run_commands_def by (simp add: progress_and_scrolls_rows)
  also have "map (\<lambda>k. [ProgressCalled (of_int (int k + 1) / of_int (max (int ?n) 1)),
                            Scrolled (if int k < visible_rows then 0
                                      else int k - (visible_rows - 1))])
                    [0..<?n]
      = map (\<lambda>k. [ProgressCalled (of_nat (Suc k) / of_nat ?n),
                            Scrolled (if int k < visible_rows then 0
                                      else int k - (visible_rows - 1))])
                    [0..<?n]"
  proof (rule map_cong [OF refl])
    fix k assume "k \<in> set [0..<?n]"
    then have "max (int ?n) 1 = int ?n" by auto
    then show "[ProgressCalled (of_int (int k + 1) / of_int (max (int ?n) 1)),
                Scrolled (if int k < visible_rows then 0 else int k - (visible_rows - 1))]
             = [ProgressCalled (of_nat (Suc k) / of_nat ?n),
                Scrolled (if int k < visible_rows then 0 else int k - (visible_rows - 1))]"
      by (simp add: add.commute)
  qed
  finally have ps: "filter is_progress_or_scroll (trace (snd ?run))
      = filter is_progress_or_scroll (trace w)
        @ concat (map (\<lambda>k. [ProgressCalled (of_nat (Suc k) / of_nat ?n),
                              Scrolled (if int k < visible_rows then 0
                                        else int k - (visible_rows - 1))])
                      [0..<?n])
        @ [ProgressCalled 1]" .
  have "filter is_progress_or_lookup (trace (snd ?run))
      = filter is_progress_or_lookup (commands (trace (snd ?run)))"
    by (simp add: filter_commands)
  also have "\<dots> = filter is_progress_or_lookup (trace w)
      @ filter is_progress_or_lookup (run_commands os_str long_texts visible_rows save_after
          connection_index session_index True log_cb)"
    unfolding c by (simp add: filter_commands)
  also have "filter is_progress_or_lookup (run_commands os_str long_texts visible_rows
          save_after connection_index session_index True log_cb)
      = [FoundById ''wnd[0]'', FoundById OKCD_ID, FoundById ''wnd[0]'',
         FoundById OS_FIELD_ID, FoundById OS_FIELD_ID, FoundById ''wnd[0]'',
         FoundById TAB_OPERACOES_ID, FoundById TBL_PATH]
        @ concat (map (\<lambda>k. [ProgressCalled (of_int (int k + 1) / of_int (max (int ?n) 1)),
                              FoundById (BTN_TEXTO_LONGO_FMT
                                           (int k - (if int k < visible_rows then 0
                                                     else int k - (visible_rows - 1)))),
                              FoundById LONGTEXT_SHELL_ID, FoundById BTN_BACK_ID])
                      [0..<?n])
        @ (if save_after then [FoundById BTN_SAVE_ID] else [])
        @ [ProgressCalled 1]"
    unfolding run_commands_def by (simp add: progress_and_lookups_rows)
  also have "map (\<lambda>k. [ProgressCalled (of_int (int k + 1) / of_int (max (int ?n) 1)),
                              FoundById (BTN_TEXTO_LONGO_FMT
                                           (int k - (if int k < visible_rows then 0
                                                     else int k - (visible_rows - 1)))),
                              FoundById LONGTEXT_SHELL_ID, FoundById BTN_BACK_ID])
                    [0..<?n]
      = map (\<lambda>k. [ProgressCalled (of_nat (Suc k) / of_nat ?n),
                              FoundById (BTN_TEXTO_LONGO_FMT
                                           (int k - (if int k < visible_rows then 0
                                                     else int k - (visible_rows - 1)))),
                              FoundById LONGTEXT_SHELL_ID, FoundById BTN_BACK_ID])
                    [0..<?n]"
  proof (rule map_cong [OF refl])
    fix k assume "k \<in> set [0..<?n]"
    then have "max (int ?n) 1 = int ?n" by auto
    then show "[ProgressCalled (of_int (int k + 1) / of_int (max (int ?n) 1)),
                FoundById (BTN_TEXTO_LONGO_FMT
                             (int k - (if int k < visible_rows then 0
                                       else int k - (visible_rows - 1)))),
                FoundById LONGTEXT_SHELL_ID, FoundById BTN_BACK_ID]
             = [ProgressCalled (of_nat (Suc k) / of_nat ?n),
                FoundById (BTN_TEXTO_LONGO_FMT
                             (int k - (if int k < visible_rows then 0
                                       else int k - (visible_rows - 1)))),
                FoundById LONGTEXT_SHELL_ID, FoundById BTN_BACK_ID]"
      by (simp add: add.commute)
  qed
  finally have pl: "filter is_progress_or_lookup (trace (snd ?run))
      = filter is_progress_or_lookup (trace w)
        @ [FoundById ''wnd[0]'', FoundById OKCD_ID, FoundById ''wnd[0]'',
           FoundById OS_FIELD_ID, FoundById OS_FIELD_ID, FoundById ''wnd[0]'',
           FoundById TAB_OPERACOES_ID, FoundById TBL_PATH]
        @ concat (map (\<lambda>k. [ProgressCalled (of_nat (Suc k) / of_nat ?n),
                              FoundById (BTN_TEXTO_LONGO_FMT
                                           (int k - (if int k < visible_rows then 0
                                                     else int k - (visible_rows - 1)))),
                              FoundById LONGTEXT_SHELL_ID, FoundById BTN_BACK_ID])
                      [0..<?n])
        @ (if save_after then [FoundById BTN_SAVE_ID] else [])
        @ [ProgressCalled 1]" .
  from pv ps pl show ?thesis
    by (simp only: simp_thms)
qed

theorem push_to_sap_progress_calls_witness:
  "fst (push_to_sap env_ok (ustr ''6000794541'') [ustr ''a'', ustr ''b'', ustr ''c''] 15 False 0 0
          True False w_init)
     = Inr True
   \<and> progress_values
       (trace (snd (push_to_sap env_ok (ustr ''6000794541'') [ustr ''a'', ustr ''b'', ustr ''c'']
                      15 False 0 0 True False w_init)))
     = [1 / 3, 2 / 3, 1, 1]"
proof -
  have ok: "fst (push_to_sap env_ok (ustr ''6000794541'') [ustr ''a'', ustr ''b'', ustr ''c''] 15
                   False 0 0 True False w_init) = Inr True"
    by (rule push_to_sap_cooperative [OF cooperative_env_ok])
  have "[0..<3] = [0, 1, 2]" by (simp add: upt_rec)
  with push_to_sap_progress_calls [OF ok] ok show ?thesis
    by (simp add: w_init_def progress_values_def)
qed

text \<open>
  The claim as written fails on a run with three rows: the callback is called four
  times, with 1/3, 2/3, 1 and 1 again, and each of the first three calls comes before
  its row is scrolled into view, not after the row's cycle.
\<close>

theorem push_to_sap_progress_three_rows:
  "progress_values
       (trace (snd (push_to_sap env_ok (ustr ''6000794541'') [ustr ''a'', ustr ''b'', ustr ''c'']
                      2 False 0 0 True False w_init)))
     = [1 / 3, 2 / 3, 1, 1]
   \<and> filter is_progress_or_scroll
       (trace (snd (push_to_sap env_ok (ustr ''6000794541'') [ustr ''a'', ustr ''b'', ustr ''c'']
                      2 False 0 0 True False w_init)))
     = [ProgressCalled (1 / 3), Scrolled 0, ProgressCalled (2 / 3), Scrolled 0,
        ProgressCalled 1, Scrolled 1, ProgressCalled 1]"
proof -
  let ?run = "push_to_sap env_ok (ustr ''6000794541'') [ustr ''a'', ustr ''b'', ustr ''c''] 2 False
                0 0 True False w_init"
  have ok: "fst ?run = Inr True"
    by (rule push_to_sap_cooperative [OF cooperative_env_ok])
  from push_to_sap_returns [OF ok]
  have c: "commands (trace (snd ?run))
      = run_commands (ustr ''6000794541'') [ustr ''a'', ustr ''b'', ustr ''c''] 2 False 0 0 True
          False"
    by (simp add: w_init_def commands_def)
  have "progress_values (trace (snd ?run)) = progress_values (commands (trace (snd ?run)))"
    by (simp add: progress_values_commands)
  then have p: "progress_values (trace (snd ?run)) = [1 / 3, 2 / 3, 1, 1]"
    unfolding c by (simp add: run_commands_def row_commands_def progress_values_def)
  have "filter is_progress_or_scroll (trace (snd ?run))
      = filter is_progress_or_scroll (commands (trace (snd ?run)))"
    by (simp add: filter_commands)
  then have "filter is_progress_or_scroll (trace (snd ?run))
      = [ProgressCalled (1 / 3), Scrolled 0, ProgressCalled (2 / 3), Scrolled 0,
         ProgressCalled 1, Scrolled 1, ProgressCalled 1]"
    unfolding c by (simp add: run_commands_def row_commands_def)
  with p show ?thesis by simp
qed

text \<open>
  Claim C5. In a run of \<open>push_to_sap\<close> on three rows with two visible rows that
  returns, the table is scrolled to position 0 and the long-text button of relative
  row 0 is looked up, then position 0 and relative row 1, then position 1 and relative
  row 1, each followed by the lookups of the long-text editor and of the back button:
  the pairs of relative row and scroll position are (0,0), (1,0), (1,1).
\<close>

theorem push_to_sap_three_rows_two_visible:
  assumes "fst (push_to_sap env os_str [texto0, texto1, texto2] 2 save_after connection_index
                  session_index progress_cb log_cb w) = Inr r"
  shows "filter is_scroll_or_lookup
           (trace (snd (push_to_sap env os_str [texto0, texto1, texto2] 2 save_after
                          connection_index session_index progress_cb log_cb w)))
         = filter is_scroll_or_lookup (trace w)
           @ [FoundById ''wnd[0]'', FoundById OKCD_ID, FoundById ''wnd[0]'',
              FoundById OS_FIELD_ID, FoundById OS_FIELD_ID, FoundById ''wnd[0]'',
              FoundById TAB_OPERACOES_ID, FoundById TBL_PATH]
           @ [Scrolled 0, FoundById (BTN_TEXTO_LONGO_FMT 0),
              FoundById LONGTEXT_SHELL_ID, FoundById BTN_BACK_ID,
              Scrolled 0, FoundById (BTN_TEXTO_LONGO_FMT 1),
              FoundById LONGTEXT_SHELL_ID, FoundById BTN_BACK_ID,
              Scrolled 1, FoundById (BTN_TEXTO_LONGO_FMT 1),
              FoundById LONGTEXT_SHELL_ID, FoundById BTN_BACK_ID]
           @ (if save_after then [FoundById BTN_SAVE_ID] else [])
       \<and> map (\<lambda>i. (fst (ensure_visible t i 2),
                     VerticalScrollbar_Position (snd (ensure_visible t i 2)))) [0, 1, 2]
         = [(0, 0), (1, 0), (1, 1)]"
proof -
  let ?run = "push_to_sap env os_str [texto0, texto1, texto2] 2 save_after connection_index
                session_index progress_cb log_cb w"
  from push_to_sap_returns [OF assms]
  have c: "commands (trace (snd ?run)) = commands (trace w)
      @ run_commands os_str [texto0, texto1, texto2] 2 save_after connection_index session_index
          progress_cb log_cb"
    by simp
  have "filter is_scroll_or_lookup (trace (snd ?run))
      = filter is_scroll_or_lookup (commands (trace (snd ?run)))"
    by (simp add: filter_commands)
  also have "\<dots> = filter is_scroll_or_lookup (trace w)
      @ filter is_scroll_or_lookup (run_commands os_str [texto0, texto1, texto2] 2 save_after
          connection_index session_index progress_cb log_cb)"
    unfolding c by (simp add: filter_commands)
  also have "filter is_scroll_or_lookup (run_commands os_str [texto0, texto1, texto2] 2
          save_after connection_index session_index progress_cb log_cb)
      = [FoundById ''wnd[0]'', FoundById OKCD_ID, FoundById ''wnd[0]'',
         FoundById OS_FIELD_ID, FoundById OS_FIELD_ID, FoundById ''wnd[0]'',
         FoundById TAB_OPERACOES_ID, FoundById TBL_PATH]
        @ [Scrolled 0, FoundById (BTN_TEXTO_LONGO_FMT 0),
           FoundById LONGTEXT_SHELL_ID, FoundById BTN_BACK_ID,
           Scrolled 0, FoundById (BTN_TEXTO_LONGO_FMT 1),
           FoundById LONGTEXT_SHELL_ID, FoundById BTN_BACK_ID,
           Scrolled 1, FoundById (BTN_TEXTO_LONGO_FMT 1),
           FoundById LONGTEXT_SHELL_ID, FoundById BTN_BACK_ID]
        @ (if save_after then [FoundById BTN_SAVE_ID] else [])"
    by (simp add: run_commands_def row_commands_def)
  finally show ?thesis
    by (simp add: ensure_visible_def)
qed

theorem push_to_sap_three_rows_two_visible_witness:
  "fst (push_to_sap env_ok (ustr ''6000794541'') [ustr ''a'', ustr ''b'', ustr ''c''] 2 True 0 0
          True True w_init)
     = Inr True
   \<and> filter is_scroll_or_lookup
       (trace (snd (push_to_sap env_ok (ustr ''6000794541'') [ustr ''a'', ustr ''b'', ustr ''c'']
                      2 True 0 0 True True w_init)))
     = [FoundById ''wnd[0]'', FoundById OKCD_ID, FoundById ''wnd[0]'',
        FoundById OS_FIELD_ID, FoundById OS_FIELD_ID, FoundById ''wnd[0]'',
        FoundById TAB_OPERACOES_ID, FoundById TBL_PATH,
        Scrolled 0, FoundById (BTN_TEXTO_LONGO_FMT 0),
        FoundById LONGTEXT_SHELL_ID, FoundById BTN_BACK_ID,
        Scrolled 0, FoundById (BTN_TEXTO_LONGO_FMT 1),
        FoundById LONGTEXT_SHELL_ID, FoundById BTN_BACK_ID,
        Scrolled 1, FoundById (BTN_TEXTO_LONGO_FMT 1),
        FoundById LONGTEXT_SHELL_ID, FoundById BTN_BACK_ID,
        FoundById BTN_SAVE_ID]"
proof -
  have ok: "fst (push_to_sap env_ok (ustr ''6000794541'') [ustr ''a'', ustr ''b'', ustr ''c''] 2
                   True 0 0 True True w_init) = Inr True"
    by (rule push_to_sap_cooperative [OF cooperative_env_ok])
  with push_to_sap_three_rows_two_visible [OF ok] show ?thesis
    by (simp add: w_init_def)
qed

end
